theory Spec2Isabelle
  imports Main "HOL-Library.Char_ord" "HOL-Library.List_Lexorder"
begin

section \<open>JavaScript values\<close>

text \<open>
  A field that TypeScript types as \<open>string | null | undefined\<close> keeps its three cases.
  A thrown exception is a value: \<open>Inl\<close> of a sum carries it.
\<close>

datatype 'a nullable = Undefined | Null | Val 'a

datatype js_error = TypeError string | Error string

fun message :: "js_error \<Rightarrow> string" where
  "message (TypeError m) = m"
| "message (Error m) = m"

text \<open>Truthiness of a string-valued expression: \<open>undefined\<close>, \<open>null\<close> and \<open>''\<close> are falsy.\<close>

fun truthy :: "string nullable \<Rightarrow> bool" where
  "truthy (Val s) = (s \<noteq> [])"
| "truthy Null = False"
| "truthy Undefined = False"

text \<open>\<open>a || null\<close> on a string that may be missing.\<close>

fun or_null :: "string option \<Rightarrow> string option" where
  "or_null (Some s) = (if s = [] then None else Some s)"
| "or_null None = None"

text \<open>\<open>a || b\<close> on two strings that may be missing.\<close>

fun or_else :: "string option \<Rightarrow> string option \<Rightarrow> string option" where
  "or_else (Some s) b = (if s = [] then b else Some s)"
| "or_else None b = b"

fun to_option :: "string nullable \<Rightarrow> string option" where
  "to_option (Val s) = Some s"
| "to_option Null = None"
| "to_option Undefined = None"

definition startsWith :: "string \<Rightarrow> string \<Rightarrow> bool" where
  "startsWith s p = (take (length p) s = p)"

text \<open>\<open>s.split(c)\<close> for a one-character separator: the empty string gives one empty piece.\<close>

fun js_split :: "char \<Rightarrow> string \<Rightarrow> string list" where
  "js_split c [] = [[]]"
| "js_split c (x # xs) =
     (if x = c then [] # js_split c xs
      else (case js_split c xs of
              [] \<Rightarrow> [[x]]
            | y # ys \<Rightarrow> (x # y) # ys))"

section \<open>The semver package\<close>

text \<open>
  The source imports the npm package \<open>semver\<close> and calls \<open>clean\<close>, \<open>rcompare\<close>,
  \<open>major\<close> and \<open>minVersion\<close>. A parsed version and the precedence order of two parsed
  versions are written out here; what the package makes of a given string is a parameter
  of the model (\<open>semver_lib\<close>), so that the results about the repository's code hold
  whatever the package answers.
\<close>

datatype pre_id = Numeric nat | Alphanumeric string

record semver =
  major :: nat
  minor :: nat
  patch :: nat
  prerelease :: "pre_id list"

fun string_less :: "string \<Rightarrow> string \<Rightarrow> bool" where
  "string_less [] [] = False"
| "string_less [] (y # ys) = True"
| "string_less (x # xs) [] = False"
| "string_less (x # xs) (y # ys) =
     (if x = y then string_less xs ys else (of_char x :: nat) < of_char y)"

text \<open>
  \<open>Numeric\<close> is an identifier that the package stores as a number, a string of digits
  below \<open>Number.MAX_SAFE_INTEGER\<close>. A string of digits at or above that bound stays a
  string; two such strings are ordered here as strings, where the package converts
  them to floating-point numbers first.
\<close>

fun compareIdentifiers :: "pre_id \<Rightarrow> pre_id \<Rightarrow> int" where
  "compareIdentifiers (Numeric a) (Numeric b) = (if a = b then 0 else if a < b then - 1 else 1)"
| "compareIdentifiers (Numeric a) (Alphanumeric b) = - 1"
| "compareIdentifiers (Alphanumeric a) (Numeric b) = 1"
| "compareIdentifiers (Alphanumeric a) (Alphanumeric b) =
     (if a = b then 0 else if string_less a b then - 1 else 1)"

fun compareNat :: "nat \<Rightarrow> nat \<Rightarrow> int" where
  "compareNat a b = (if a = b then 0 else if a < b then - 1 else 1)"

definition compareMain :: "semver \<Rightarrow> semver \<Rightarrow> int" where
  "compareMain a b =
     (if compareNat (major a) (major b) \<noteq> 0 then compareNat (major a) (major b)
      else if compareNat (minor a) (minor b) \<noteq> 0 then compareNat (minor a) (minor b)
      else compareNat (patch a) (patch b))"

fun comparePreFrom :: "pre_id list \<Rightarrow> pre_id list \<Rightarrow> int" where
  "comparePreFrom [] [] = 0"
| "comparePreFrom (a # as) [] = 1"
| "comparePreFrom [] (b # bs) = - 1"
| "comparePreFrom (a # as) (b # bs) =
     (if a = b then comparePreFrom as bs else compareIdentifiers a b)"

definition comparePre :: "semver \<Rightarrow> semver \<Rightarrow> int" where
  "comparePre a b =
     (if prerelease a \<noteq> [] \<and> prerelease b = [] then - 1
      else if prerelease a = [] \<and> prerelease b \<noteq> [] then 1
      else if prerelease a = [] \<and> prerelease b = [] then 0
      else comparePreFrom (prerelease a) (prerelease b))"

definition compare :: "semver \<Rightarrow> semver \<Rightarrow> int" where
  "compare a b = (if compareMain a b \<noteq> 0 then compareMain a b else comparePre a b)"

text \<open>
  The strict orders that \<open>compareIdentifiers\<close> and \<open>compareMain\<close> decide, for the proofs
  that \<open>compare\<close> is a total preorder.
\<close>

fun id_less :: "pre_id \<Rightarrow> pre_id \<Rightarrow> bool" where
  "id_less (Numeric a) (Numeric b) = (a < b)"
| "id_less (Numeric a) (Alphanumeric b) = True"
| "id_less (Alphanumeric a) (Numeric b) = False"
| "id_less (Alphanumeric a) (Alphanumeric b) = (a < b)"

definition main_less :: "semver \<Rightarrow> semver \<Rightarrow> bool" where
  "main_less a b \<longleftrightarrow>
     major a < major b \<or> (major a = major b \<and>
       (minor a < minor b \<or> (minor a = minor b \<and> patch a < patch b)))"

definition main_eq :: "semver \<Rightarrow> semver \<Rightarrow> bool" where
  "main_eq a b \<longleftrightarrow> major a = major b \<and> minor a = minor b \<and> patch a = patch b"

text \<open>
  The package's answers on strings: \<open>SemVer v\<close> is \<open>new SemVer(v)\<close>, which throws a
  \<open>TypeError\<close> on a string that is not a version; \<open>clean v\<close> is a canonical version
  string or \<open>null\<close>; \<open>minVersion r\<close> throws on a malformed range, is \<open>null\<close> when
  no version satisfies the range, and is the least satisfying version otherwise.
\<close>

record semver_lib =
  SemVer :: "string \<Rightarrow> js_error + semver"
  clean :: "string \<Rightarrow> string option"
  minVersion :: "string \<Rightarrow> js_error + semver option"

definition semver_major :: "semver_lib \<Rightarrow> string \<Rightarrow> js_error + nat" where
  "semver_major L v = (case SemVer L v of Inl e \<Rightarrow> Inl e | Inr x \<Rightarrow> Inr (major x))"

text \<open>\<open>rcompare(a, b)\<close> is \<open>compare(b, a)\<close>, which builds \<open>new SemVer(b)\<close> first.\<close>

definition semver_rcompare :: "semver_lib \<Rightarrow> string \<Rightarrow> string \<Rightarrow> js_error + int" where
  "semver_rcompare L a b =
     (case SemVer L b of
        Inl e \<Rightarrow> Inl e
      | Inr vb \<Rightarrow> (case SemVer L a of
                    Inl e \<Rightarrow> Inl e
                  | Inr va \<Rightarrow> Inr (compare vb va)))"

text \<open>
  \<open>versions.sort(semver.rcompare)\<close>: a stable sort that calls the comparator, so it throws
  what the comparator throws. An array of fewer than two elements is returned without
  any call of the comparator. The order in which an engine compares pairs is its own; it
  only decides which message is reported when several elements are not versions.
\<close>

fun insert_rcompare :: "semver_lib \<Rightarrow> string \<Rightarrow> string list \<Rightarrow> js_error + string list" where
  "insert_rcompare L x [] = Inr [x]"
| "insert_rcompare L x (y # ys) =
     (case semver_rcompare L x y of
        Inl e \<Rightarrow> Inl e
      | Inr c \<Rightarrow>
          if c \<le> 0 then Inr (x # y # ys)
          else (case insert_rcompare L x ys of
                  Inl e \<Rightarrow> Inl e
                | Inr zs \<Rightarrow> Inr (y # zs)))"

fun sort_rcompare :: "semver_lib \<Rightarrow> string list \<Rightarrow> js_error + string list" where
  "sort_rcompare L [] = Inr []"
| "sort_rcompare L (x # xs) =
     (case sort_rcompare L xs of
        Inl e \<Rightarrow> Inl e
      | Inr ys \<Rightarrow> insert_rcompare L x ys)"

text \<open>\<open>sorted.find((v) => semver.major(v) === m)\<close>: \<open>major\<close> throws on a non-version.\<close>

fun find_major :: "semver_lib \<Rightarrow> nat \<Rightarrow> string list \<Rightarrow> js_error + string option" where
  "find_major L m [] = Inr None"
| "find_major L m (v # vs) =
     (case semver_major L v of
        Inl e \<Rightarrow> Inl e
      | Inr k \<Rightarrow> if k = m then Inr (Some v) else find_major L m vs)"

section \<open>Data model (src/lib/types.ts)\<close>

record git_line =
  version :: "string option"
  branch :: "string option"

record git_block =
  git_repo :: string
  git_v0 :: git_line
  git_v1 :: git_line

record npm_block =
  npm_repo :: "string nullable"
  npm_v0 :: "string nullable"
  npm_v1 :: "string nullable"

record supports_block =
  supports_v0 :: bool
  supports_v1 :: bool

record VersionInfo =
  git :: "git_block option"
  npm :: "npm_block option"
  supports :: supports_block

record CachedRegistry =
  lastUpdatedAt :: string
  registry :: "(string \<times> VersionInfo) list"

text \<open>\<open>{versions?: Record<string, unknown>}\<close>: the keys of \<open>versions\<close>, in key order.\<close>

record NpmPackageMetadata =
  versions :: "string list option"

section \<open>Upstream services\<close>

text \<open>
  Every network request of the source is one \<open>call\<close>. What the services answer is a
  parameter of the model, the record \<open>upstream\<close>:
  \<^item> \<open>index_json\<close>: the entries of the index document in the order of \<open>Object.entries\<close>,
    \<open>None\<close> when \<open>fetch\<close> throws, the status is not ok or the body is not JSON;
  \<^item> \<open>listBranches\<close>, \<open>listTags\<close>: the names that octokit returns, \<open>None\<close> when it throws;
  \<^item> \<open>getContent\<close>: the parsed \<open>package.json\<close> at a ref, \<open>None\<close> when octokit throws,
    the answer has no \<open>content\<close> or the content is not JSON;
  \<^item> \<open>npm_json\<close>: the metadata document of a package, \<open>None\<close> as for the index;
  \<^item> \<open>timer_first\<close>: whether the 25-second timer settles before \<open>parseRegistry\<close> does;
  \<^item> \<open>clock_iso\<close>: \<open>new Date().toISOString()\<close>.
\<close>

datatype call =
    FetchIndex
  | ListBranches string string
  | ListTags string string
  | GetContent string string string
  | FetchNpm string

text \<open>The two fields of a \<open>package.json\<close> that \<open>fetchPackageJSON\<close> reads the range from.\<close>

record package_json =
  pkg_version :: string
  dependencies_core :: "string option"
  peerDependencies_core :: "string option"

record upstream =
  index_json :: "(string \<times> string) list option"
  listBranches :: "string \<Rightarrow> string \<Rightarrow> string list option"
  listTags :: "string \<Rightarrow> string \<Rightarrow> string list option"
  getContent :: "string \<Rightarrow> string \<Rightarrow> string \<Rightarrow> package_json option"
  npm_json :: "string \<Rightarrow> NpmPackageMetadata option"
  timer_first :: bool
  clock_iso :: string

section \<open>src/lib/parse-registry.ts\<close>

definition parseGitRef :: "string \<Rightarrow> (string \<times> string) option" where
  "parseGitRef gitRef =
     (if \<not> startsWith gitRef ''github:'' then None
      else (case js_split (CHR ''/'') (drop (length ''github:'') gitRef) of
              [] \<Rightarrow> None
            | [owner] \<Rightarrow> None
            | owner # repo # rest \<Rightarrow>
                if owner = [] \<or> repo = [] then None else Some (owner, repo)))"

definition getGitHubBranches :: "upstream \<Rightarrow> string \<Rightarrow> string \<Rightarrow> call list \<times> string list" where
  "getGitHubBranches U owner repo =
     ([ListBranches owner repo],
      (case listBranches U owner repo of None \<Rightarrow> [] | Some names \<Rightarrow> names))"

record manifest =
  manifest_version :: string
  coreRange :: "string option"

definition fetchPackageJSON ::
  "upstream \<Rightarrow> string \<Rightarrow> string \<Rightarrow> string \<Rightarrow> call list \<times> manifest option" where
  "fetchPackageJSON U owner repo ref =
     ([GetContent owner repo ref],
      (case getContent U owner repo ref of
         None \<Rightarrow> None
       | Some pkg \<Rightarrow>
           Some \<lparr>manifest_version = pkg_version pkg,
                 coreRange = or_else (dependencies_core pkg)
                               (or_else (peerDependencies_core pkg) None)\<rparr>))"

record TagSummary =
  tag_repo :: string
  tag_v0 :: "string option"
  tag_v1 :: "string option"

definition latest_tags :: "semver_lib \<Rightarrow> string list \<Rightarrow> js_error + (string option \<times> string option)" where
  "latest_tags L names =
     (let cleaned = filter (\<lambda>v. v \<noteq> []) (List.map_filter (clean L) names)
      in case sort_rcompare L cleaned of
           Inl e \<Rightarrow> Inl e
         | Inr srt \<Rightarrow>
             (case find_major L 0 srt of
                Inl e \<Rightarrow> Inl e
              | Inr latestV0 \<Rightarrow>
                  (case find_major L 1 srt of
                     Inl e \<Rightarrow> Inl e
                   | Inr latestV1 \<Rightarrow> Inr (or_null latestV0, or_null latestV1))))"

definition getLatestGitTags ::
  "semver_lib \<Rightarrow> upstream \<Rightarrow> string \<Rightarrow> string \<Rightarrow> call list \<times> TagSummary" where
  "getLatestGitTags L U owner repo =
     ([ListTags owner repo],
      (case listTags U owner repo of
         None \<Rightarrow> \<lparr>tag_repo = owner @ ''/'' @ repo, tag_v0 = None, tag_v1 = None\<rparr>
       | Some names \<Rightarrow>
           (case latest_tags L names of
              Inl e \<Rightarrow> \<lparr>tag_repo = owner @ ''/'' @ repo, tag_v0 = None, tag_v1 = None\<rparr>
            | Inr (v0, v1) \<Rightarrow> \<lparr>tag_repo = owner @ ''/'' @ repo, tag_v0 = v0, tag_v1 = v1\<rparr>)))"

fun nullable_of :: "string option \<Rightarrow> string nullable" where
  "nullable_of None = Null"
| "nullable_of (Some s) = Val s"

definition inspectNpm :: "semver_lib \<Rightarrow> upstream \<Rightarrow> string \<Rightarrow> call list \<times> (js_error + npm_block)" where
  "inspectNpm L U pkgName =
     ([FetchNpm pkgName],
      (case npm_json U pkgName of
         None \<Rightarrow> Inr \<lparr>npm_repo = Val pkgName, npm_v0 = Undefined, npm_v1 = Undefined\<rparr>
       | Some meta \<Rightarrow>
           (case versions meta of
              None \<Rightarrow> Inr \<lparr>npm_repo = Val pkgName, npm_v0 = Undefined, npm_v1 = Undefined\<rparr>
            | Some keys \<Rightarrow>
                (case sort_rcompare L keys of
                   Inl e \<Rightarrow> Inl e
                 | Inr srt \<Rightarrow>
                     (case find_major L 0 srt of
                        Inl e \<Rightarrow> Inl e
                      | Inr v0 \<Rightarrow>
                          (case find_major L 1 srt of
                             Inl e \<Rightarrow> Inl e
                           | Inr v1 \<Rightarrow>
                               Inr \<lparr>npm_repo = Val pkgName,
                                    npm_v0 = nullable_of (or_null v0),
                                    npm_v1 = nullable_of (or_null v1)\<rparr>))))))"

definition guessNpmName :: "string \<Rightarrow> string" where
  "guessNpmName jsName =
     (if startsWith jsName ''@elizaos-plugins/''
      then ''@elizaos/'' @ drop (length ''@elizaos-plugins/'') jsName
      else jsName)"

text \<open>
  The range of a manifest as both loops of \<open>processRepo\<close> read it: the \<open>workspace:\<close>
  prefix is cut off and a bare \<open>*\<close>, \<open>^\<close> or \<open>~\<close> becomes \<open>>=0.0.0\<close>.
\<close>

definition normalizeRange :: "string option \<Rightarrow> string option" where
  "normalizeRange cr =
     (case cr of
        None \<Rightarrow> None
      | Some r \<Rightarrow>
          if startsWith r ''workspace:''
          then (let r' = drop (length ''workspace:'') r
                in if r' = ''*'' \<or> r' = ''^'' \<or> r' = ''~'' then Some ''>=0.0.0'' else Some r')
          else Some r)"

text \<open>
  \<open>semver.minVersion(coreRange)?.major\<close> under the guard
  \<open>coreRange && coreRange !== 'latest'\<close> and inside \<open>try\<close>: no major (\<open>undefined\<close>)
  when the guard fails, when \<open>minVersion\<close> throws or when it returns \<open>null\<close>.
\<close>

definition rangeMajor :: "semver_lib \<Rightarrow> string option \<Rightarrow> nat option" where
  "rangeMajor L cr =
     (case cr of
        None \<Rightarrow> None
      | Some r \<Rightarrow>
          if r \<noteq> [] \<and> r \<noteq> ''latest''
          then (case minVersion L r of
                  Inl e \<Rightarrow> None
                | Inr None \<Rightarrow> None
                | Inr (Some v) \<Rightarrow> Some (major v))
          else None)"

definition manifestMajor :: "semver_lib \<Rightarrow> manifest \<Rightarrow> nat option" where
  "manifestMajor L pkg = rangeMajor L (normalizeRange (coreRange pkg))"

record BranchSupport =
  branch_v0 :: "string option"
  branch_v1 :: "string option"

text \<open>The first loop of \<open>processRepo\<close>, over the settled manifest fetches by index.\<close>

fun supportedBranches ::
  "semver_lib \<Rightarrow> (string \<times> manifest option) list \<Rightarrow> BranchSupport \<Rightarrow> BranchSupport" where
  "supportedBranches L [] sb = sb"
| "supportedBranches L ((br, None) # rest) sb = supportedBranches L rest sb"
| "supportedBranches L ((br, Some pkg) # rest) sb =
     (let mj = manifestMajor L pkg;
          sb1 = (if mj = Some 0 then sb\<lparr>branch_v0 := Some br\<rparr> else sb);
          sb2 = (if mj = Some 1 then sb1\<lparr>branch_v1 := Some br\<rparr> else sb1)
      in supportedBranches L rest sb2)"

text \<open>The second loop, over \<open>pkgs\<close>: the pair is \<open>(supportsV0, supportsV1)\<close>.\<close>

fun supportsFromPkgs :: "semver_lib \<Rightarrow> manifest list \<Rightarrow> bool \<times> bool \<Rightarrow> bool \<times> bool" where
  "supportsFromPkgs L [] s = s"
| "supportsFromPkgs L (pkg # rest) (s0, s1) =
     (let mj = manifestMajor L pkg
      in supportsFromPkgs L rest
           (if mj = Some 0 then True else s0, if mj = Some 1 then True else s1))"

definition candidate_list :: "string list" where
  "candidate_list = [''main'', ''master'', ''0.x'', ''1.x'']"

definition branchCandidates :: "string list \<Rightarrow> string list" where
  "branchCandidates branches = filter (\<lambda>b. b \<in> set branches) candidate_list"

fun or_string :: "string option \<Rightarrow> string \<Rightarrow> string" where
  "or_string (Some s) d = (if s = [] then d else s)"
| "or_string None d = d"

fun is_truthy :: "string option \<Rightarrow> bool" where
  "is_truthy (Some s) = (s \<noteq> [])"
| "is_truthy None = False"

definition unsupported :: VersionInfo where
  "unsupported =
     \<lparr>git = None,
      npm = Some \<lparr>npm_repo = Null, npm_v0 = Null, npm_v1 = Null\<rparr>,
      supports = \<lparr>supports_v0 = False, supports_v1 = False\<rparr>\<rparr>"

text \<open>
  The verdict that \<open>processRepo\<close> builds once the tag and npm probes have settled.
\<close>

definition verdict ::
  "string \<Rightarrow> string \<Rightarrow> BranchSupport \<Rightarrow> bool \<times> bool \<Rightarrow> TagSummary \<Rightarrow> npm_block \<Rightarrow> VersionInfo" where
  "verdict owner repo sb s gitTagInfo npmInfo =
     (let supportsV0 = (if truthy (npm_v0 npmInfo) then True else fst s);
          supportsV1 = (if truthy (npm_v1 npmInfo) then True else snd s);
          gitInfo =
            \<lparr>git_repo = or_string (or_else (Some (tag_repo gitTagInfo)) (to_option (npm_repo npmInfo)))
                          (owner @ ''/'' @ repo),
             git_v0 = \<lparr>version = or_null (or_else (tag_v0 gitTagInfo) (to_option (npm_v0 npmInfo))),
                       branch = branch_v0 sb\<rparr>,
             git_v1 = \<lparr>version = or_null (or_else (tag_v1 gitTagInfo) (to_option (npm_v1 npmInfo))),
                       branch = branch_v1 sb\<rparr>\<rparr>
      in \<lparr>git = Some gitInfo,
          npm = Some npmInfo,
          supports = \<lparr>supports_v0 = (supportsV0 \<or> is_truthy (branch_v0 sb)),
                      supports_v1 = (supportsV1 \<or> is_truthy (branch_v1 sb))\<rparr>\<rparr>)"

text \<open>
  \<open>processRepo\<close> returns the requests it made and either the exception that rejects its
  promise or the pair of the identifier and the verdict. The three probes are started
  before anything is awaited, so their requests are made even when one of them throws.
\<close>

definition processRepo ::
  "semver_lib \<Rightarrow> upstream \<Rightarrow> string \<Rightarrow> string \<Rightarrow> call list \<times> (js_error + string \<times> VersionInfo)" where
  "processRepo L U npmId gitRef =
     (case parseGitRef gitRef of
        None \<Rightarrow> ([], Inr (npmId, unsupported))
      | Some (owner, repo) \<Rightarrow>
          (let branchesPromise = getGitHubBranches U owner repo;
               tagsPromise = getLatestGitTags L U owner repo;
               npmPromise = inspectNpm L U (guessNpmName npmId);
               candidates = branchCandidates (snd branchesPromise);
               pkgPromises = map (fetchPackageJSON U owner repo) candidates;
               pkgResults = map snd pkgPromises;
               sb = supportedBranches L (zip candidates pkgResults)
                      \<lparr>branch_v0 = None, branch_v1 = None\<rparr>;
               pkgs = List.map_filter id pkgResults;
               s = supportsFromPkgs L pkgs (False, False)
           in (fst branchesPromise @ fst tagsPromise @ fst npmPromise @ concat (map fst pkgPromises),
               (case snd npmPromise of
                  Inl e \<Rightarrow> Inl e
                | Inr npmInfo \<Rightarrow> Inr (npmId, verdict owner repo sb s (snd tagsPromise) npmInfo)))))"

text \<open>\<open>safeFetchJSON\<close> of the index document: entries with an empty key are dropped.\<close>

definition safeFetchJSON_index :: "upstream \<Rightarrow> call list \<times> (string \<times> string) list option" where
  "safeFetchJSON_index U =
     ([FetchIndex],
      (case index_json U of
         None \<Rightarrow> None
       | Some entries \<Rightarrow> Some (filter (\<lambda>e. fst e \<noteq> []) entries)))"

text \<open>\<open>report[id] = info\<close> on an object kept as a list of its entries.\<close>

fun assign :: "(string \<times> 'v) list \<Rightarrow> string \<Rightarrow> 'v \<Rightarrow> (string \<times> 'v) list" where
  "assign [] k v = [(k, v)]"
| "assign ((k', v') # rest) k v =
     (if k' = k then (k, v) # rest else (k', v') # assign rest k v)"

text \<open>\<open>Promise.all\<close>: the first rejection, or all the results.\<close>

fun promise_all :: "(js_error + 'a) list \<Rightarrow> js_error + 'a list" where
  "promise_all [] = Inr []"
| "promise_all (Inl e # rest) = Inl e"
| "promise_all (Inr x # rest) =
     (case promise_all rest of Inl e \<Rightarrow> Inl e | Inr xs \<Rightarrow> Inr (x # xs))"

definition parseRegistry ::
  "semver_lib \<Rightarrow> upstream \<Rightarrow> string \<Rightarrow> call list \<times> (js_error + CachedRegistry)" where
  "parseRegistry L U githubToken =
     (let fetched = safeFetchJSON_index U;
          reg = (case snd fetched of None \<Rightarrow> [] | Some r \<Rightarrow> r);
          tasks = map (\<lambda>e. processRepo L U (fst e) (snd e)) reg
      in (fst fetched @ concat (map fst tasks),
          (case promise_all (map snd tasks) of
             Inl e \<Rightarrow> Inl e
           | Inr results \<Rightarrow>
               Inr \<lparr>lastUpdatedAt = clock_iso U,
                    registry = fold (\<lambda>r report. assign report (fst r) (snd r)) results []\<rparr>)))"

section \<open>src/app/api/plugins/registry/route.ts\<close>

record cache =
  cachedData :: "CachedRegistry option"
  cacheTimestamp :: int

definition CACHE_DURATION :: int where
  "CACHE_DURATION = 30 * 60 * 1000"

record process_env =
  GITHUB_TOKEN :: "string option"
  GH_TOKEN :: "string option"

datatype body =
    Snapshot CachedRegistry
  | StaleSnapshot CachedRegistry string string
  | ErrorOnly string
  | Failure string string string

record response =
  status :: nat
  cache_control :: "string option"
  body :: body

text \<open>
  One request: \<open>now\<close> is \<open>Date.now()\<close>. The result is the response, the requests made
  upstream and the two module variables after the request. \<open>refresh\<close> is the handler
  from the reading of the token on, after the cache test has failed. \<open>Promise.race\<close>
  settles with the timer's rejection when the timer is first, with the outcome of
  \<open>parseRegistry\<close> otherwise; the race cancels nothing, so the requests of
  \<open>parseRegistry\<close> are made in both cases.
\<close>

definition fresh_headers :: string where
  "fresh_headers = ''public, s-maxage=1800, stale-while-revalidate=3600''"

definition stale_headers :: string where
  "stale_headers = ''public, s-maxage=300, stale-while-revalidate=3600''"

text \<open>\<open>process.env.GITHUB_TOKEN || process.env.GH_TOKEN\<close>, \<open>None\<close> when the result is falsy.\<close>

definition githubToken :: "process_env \<Rightarrow> string option" where
  "githubToken env = or_else (GITHUB_TOKEN env) (or_else (GH_TOKEN env) None)"

definition refresh ::
  "semver_lib \<Rightarrow> upstream \<Rightarrow> process_env \<Rightarrow> int \<Rightarrow> cache \<Rightarrow> response \<times> call list \<times> cache" where
  "refresh L U env now st =
     (case githubToken env of
        None \<Rightarrow>
          (\<lparr>status = 500, cache_control = None,
            body = ErrorOnly ''GitHub token not configured on server''\<rparr>, [], st)
      | Some token \<Rightarrow>
          (let parsePromise = parseRegistry L U token;
               raced = (if timer_first U then Inl (Error ''Registry parsing timeout'')
                        else snd parsePromise)
           in (case raced of
                 Inr result \<Rightarrow>
                   (\<lparr>status = 200, cache_control = Some fresh_headers, body = Snapshot result\<rparr>,
                    fst parsePromise,
                    \<lparr>cachedData = Some result, cacheTimestamp = now\<rparr>)
               | Inl error \<Rightarrow>
                   (case cachedData st of
                      Some stale \<Rightarrow>
                        (\<lparr>status = 200, cache_control = Some stale_headers,
                          body = StaleSnapshot stale ''Data may be stale due to parsing error''
                                   (message error)\<rparr>,
                         fst parsePromise, st)
                    | None \<Rightarrow>
                        (\<lparr>status = 500, cache_control = None,
                          body = Failure ''Failed to parse registry'' (message error) (clock_iso U)\<rparr>,
                         fst parsePromise, st)))))"

definition GET ::
  "semver_lib \<Rightarrow> upstream \<Rightarrow> process_env \<Rightarrow> int \<Rightarrow> cache \<Rightarrow> response \<times> call list \<times> cache" where
  "GET L U env now st =
     (case cachedData st of
        Some cached \<Rightarrow>
          if now - cacheTimestamp st < CACHE_DURATION
          then (\<lparr>status = 200, cache_control = Some fresh_headers, body = Snapshot cached\<rparr>, [], st)
          else refresh L U env now st
      | None \<Rightarrow> refresh L U env now st)"

text \<open>
  The two module variables over the lifetime of one server process. They start as they
  are declared, \<open>cachedData = null\<close> and \<open>cacheTimestamp = 0\<close>, and only \<open>GET\<close> assigns
  them, so the states the handler can meet are those that a sequence of requests leaves
  behind. The environment \<open>process.env\<close> and the library are those of the process, the
  same at every request; the clock reading and the answers of the upstream services
  are free at each request.
\<close>

definition initial_cache :: cache where
  "initial_cache = \<lparr>cachedData = None, cacheTimestamp = 0\<rparr>"

inductive reachable :: "semver_lib \<Rightarrow> process_env \<Rightarrow> cache \<Rightarrow> bool"
  for L :: semver_lib and env :: process_env where
  start: "reachable L env initial_cache"
| request: "reachable L env st \<Longrightarrow> reachable L env (snd (snd (GET L U env now st)))"

section \<open>The semver package on ASCII strings\<close>

text \<open>
  One instance of \<open>semver_lib\<close>, used wherever a result is evaluated on concrete
  strings: the strict version grammar of the package,
  \<open>v?N.N.N(-id(.id)*)?(+id(.id)*)?\<close> after trimming, where \<open>N\<close> is \<open>0\<close> or a
  numeral without a leading zero, at most 256 characters long and with no number above
  \<open>Number.MAX_SAFE_INTEGER\<close>.
\<close>

definition is_digit :: "char \<Rightarrow> bool" where
  "is_digit c = (c \<in> set ''0123456789'')"

definition is_letter :: "char \<Rightarrow> bool" where
  "is_letter c = (c \<in> set ''abcdefghijklmnopqrstuvwxyzABCDEFGHIJKLMNOPQRSTUVWXYZ'')"

definition is_space :: "char \<Rightarrow> bool" where
  "is_space c = (c \<in> set [CHR 0x09, CHR 0x0A, CHR 0x0B, CHR 0x0C, CHR 0x0D, CHR 0x20])"

definition trim :: "string \<Rightarrow> string" where
  "trim s = rev (dropWhile is_space (rev (dropWhile is_space s)))"

definition decimal :: "string \<Rightarrow> nat" where
  "decimal s = foldl (\<lambda>n c. 10 * n + (of_char c - 48)) 0 s"

definition MAX_SAFE_INTEGER :: nat where
  "MAX_SAFE_INTEGER = 9007199254740991"

definition MAX_LENGTH :: nat where
  "MAX_LENGTH = 256"

fun numericIdentifier :: "string \<Rightarrow> bool" where
  "numericIdentifier [] = False"
| "numericIdentifier [c] = is_digit c"
| "numericIdentifier (c # d # ds) = (is_digit c \<and> c \<noteq> CHR ''0'' \<and> list_all is_digit (d # ds))"

definition is_idchar :: "char \<Rightarrow> bool" where
  "is_idchar c = (is_digit c \<or> is_letter c \<or> c = CHR ''-'')"

definition prereleaseIdentifier :: "string \<Rightarrow> bool" where
  "prereleaseIdentifier s =
     (s \<noteq> [] \<and> list_all is_idchar s \<and> (if list_all is_digit s then numericIdentifier s else True))"

definition buildIdentifier :: "string \<Rightarrow> bool" where
  "buildIdentifier s = (s \<noteq> [] \<and> list_all is_idchar s)"

definition prerelease_value :: "string \<Rightarrow> pre_id" where
  "prerelease_value s =
     (if list_all is_digit s \<and> decimal s < MAX_SAFE_INTEGER then Numeric (decimal s)
      else Alphanumeric s)"

text \<open>The match of the anchored pattern: the three numerals and the prerelease identifiers.\<close>

definition match_full :: "string \<Rightarrow> (string \<times> string \<times> string \<times> string list) option" where
  "match_full t =
     (let t1 = (case t of [] \<Rightarrow> [] | c # r \<Rightarrow> if c = CHR ''v'' then r else c # r);
          not_mark = (\<lambda>c. c \<noteq> CHR ''-'' \<and> c \<noteq> CHR ''+'');
          rest = dropWhile not_mark t1
      in case js_split (CHR ''.'') (takeWhile not_mark t1) of
           [a, b, c] \<Rightarrow>
             if numericIdentifier a \<and> numericIdentifier b \<and> numericIdentifier c
             then (case rest of
                     [] \<Rightarrow> Some (a, b, c, [])
                   | x # r \<Rightarrow>
                       if x = CHR ''-''
                       then (let pre = js_split (CHR ''.'') (takeWhile (\<lambda>c. c \<noteq> CHR ''+'') r);
                                 bld = dropWhile (\<lambda>c. c \<noteq> CHR ''+'') r
                             in if list_all prereleaseIdentifier pre \<and>
                                   (bld = [] \<or> list_all buildIdentifier (js_split (CHR ''.'') (tl bld)))
                                then Some (a, b, c, pre) else None)
                       else if list_all buildIdentifier (js_split (CHR ''.'') r)
                            then Some (a, b, c, []) else None)
             else None
         | _ \<Rightarrow> None)"

definition new_SemVer :: "string \<Rightarrow> js_error + semver" where
  "new_SemVer v =
     (if length v > MAX_LENGTH then Inl (TypeError ''version is longer than 256 characters'')
      else (case match_full (trim v) of
              None \<Rightarrow> Inl (TypeError (''Invalid Version: '' @ v))
            | Some (a, b, c, pre) \<Rightarrow>
                if decimal a > MAX_SAFE_INTEGER then Inl (TypeError ''Invalid major version'')
                else if decimal b > MAX_SAFE_INTEGER then Inl (TypeError ''Invalid minor version'')
                else if decimal c > MAX_SAFE_INTEGER then Inl (TypeError ''Invalid patch version'')
                else Inr \<lparr>major = decimal a, minor = decimal b, patch = decimal c,
                          prerelease = map prerelease_value pre\<rparr>))"

definition digit_char :: "nat \<Rightarrow> char" where
  "digit_char d = ''0123456789'' ! d"

fun digits :: "nat \<Rightarrow> string" where
  "digits n = (if n < 10 then [digit_char n] else digits (n div 10) @ [digit_char (n mod 10)])"

declare digits.simps [simp del]

fun format_id :: "pre_id \<Rightarrow> string" where
  "format_id (Numeric n) = digits n"
| "format_id (Alphanumeric s) = s"

fun join :: "string \<Rightarrow> string list \<Rightarrow> string" where
  "join sep [] = []"
| "join sep [x] = x"
| "join sep (x # y # ys) = x @ sep @ join sep (y # ys)"

definition format :: "semver \<Rightarrow> string" where
  "format x =
     digits (major x) @ ''.'' @ digits (minor x) @ ''.'' @ digits (patch x) @
     (if prerelease x = [] then [] else ''-'' @ join ''.'' (map format_id (prerelease x)))"

text \<open>\<open>clean\<close>: trim, drop leading \<open>=\<close> and \<open>v\<close>, parse, print.\<close>

definition semver_clean :: "string \<Rightarrow> string option" where
  "semver_clean v =
     (case new_SemVer (dropWhile (\<lambda>c. c = CHR ''='' \<or> c = CHR ''v'') (trim v)) of
        Inl e \<Rightarrow> None
      | Inr x \<Rightarrow> Some (format x))"

text \<open>
  The range grammar is not written out. \<open>minVersion\<close> of this instance gives the
  package's answers on the range strings of the examples below and treats any other
  string as one it cannot read; the results that hold for every range take
  \<open>minVersion\<close> as a parameter instead.
\<close>

definition example_minVersion :: "string \<Rightarrow> js_error + semver option" where
  "example_minVersion r =
     (if r = ''>=0.0.0'' then Inr (Some \<lparr>major = 0, minor = 0, patch = 0, prerelease = []\<rparr>)
      else if r = ''^0.5.0'' then Inr (Some \<lparr>major = 0, minor = 5, patch = 0, prerelease = []\<rparr>)
      else if r = ''^1.0.0'' then Inr (Some \<lparr>major = 1, minor = 0, patch = 0, prerelease = []\<rparr>)
      else Inl (TypeError (''Invalid comparator: '' @ r)))"

definition npm_semver :: semver_lib where
  "npm_semver = \<lparr>SemVer = new_SemVer, clean = semver_clean, minVersion = example_minVersion\<rparr>"

text \<open>
  The package's range test, \<open>satisfies(version, range)\<close>, for the ranges that are one
  comparator. A comparator is \<open>(<|>)?=?\<close> followed by a full version, or empty
  (\<open>classes/comparator.js\<close>); a range is a list of sets of comparators
  (\<open>classes/range.js\<close>).
\<close>

datatype operator = GTE | GT | LTE | LT | EQ

datatype comparator = ANY | Comparator operator semver

definition parse_operator :: "string \<Rightarrow> operator \<times> string" where
  "parse_operator r =
     (if startsWith r ''>='' then (GTE, drop 2 r)
      else if startsWith r ''<='' then (LTE, drop 2 r)
      else if startsWith r ''>'' then (GT, drop 1 r)
      else if startsWith r ''<'' then (LT, drop 1 r)
      else if startsWith r ''='' then (EQ, drop 1 r)
      else (EQ, r))"

definition new_Comparator :: "string \<Rightarrow> js_error + comparator" where
  "new_Comparator r =
     (if trim r = [] then Inr ANY
      else (case parse_operator (trim r) of
              (op, rest) \<Rightarrow>
                (case match_full (dropWhile is_space rest) of
                   None \<Rightarrow> Inl (TypeError (''Invalid comparator: '' @ trim r))
                 | Some m \<Rightarrow>
                     (case new_SemVer (dropWhile is_space rest) of
                        Inl e \<Rightarrow> Inl e
                      | Inr x \<Rightarrow> Inr (Comparator op x)))))"

fun cmp :: "semver \<Rightarrow> operator \<Rightarrow> semver \<Rightarrow> bool" where
  "cmp a GTE b = (compare a b \<ge> 0)"
| "cmp a GT b = (compare a b > 0)"
| "cmp a LTE b = (compare a b \<le> 0)"
| "cmp a LT b = (compare a b < 0)"
| "cmp a EQ b = (compare a b = 0)"

text \<open>\<open>Comparator.test\<close> on a parsed version.\<close>

fun test :: "comparator \<Rightarrow> semver \<Rightarrow> bool" where
  "test ANY x = True"
| "test (Comparator op b) x = cmp x op b"

text \<open>
  \<open>testSet\<close>, without the option \<open>includePrerelease\<close>: every comparator of the set
  passes, and a version with a prerelease tag is accepted only when some comparator of
  the set names a version that has a prerelease tag and the same
  \<open>major.minor.patch\<close>.
\<close>

fun allows_prerelease :: "semver \<Rightarrow> comparator \<Rightarrow> bool" where
  "allows_prerelease x ANY = False"
| "allows_prerelease x (Comparator op allowed) =
     (prerelease allowed \<noteq> [] \<and>
      major allowed = major x \<and> minor allowed = minor x \<and> patch allowed = patch x)"

definition testSet :: "comparator list \<Rightarrow> semver \<Rightarrow> bool" where
  "testSet comps x =
     (if list_ex (\<lambda>c. \<not> test c x) comps then False
      else if prerelease x \<noteq> [] then list_ex (allows_prerelease x) comps
      else True)"

definition Range_test :: "comparator list list \<Rightarrow> semver \<Rightarrow> bool" where
  "Range_test sets x = list_ex (\<lambda>comps. testSet comps x) sets"

text \<open>The pattern \<open>^\s*>=\s*0\.0\.0\s*$\<close> of \<open>replaceGTE0\<close>.\<close>

definition GTE0 :: "string \<Rightarrow> bool" where
  "GTE0 s =
     (startsWith (dropWhile is_space s) ''>='' \<and>
      trim (drop 2 (dropWhile is_space s)) = ''0.0.0'')"

text \<open>
  \<open>new Range(r)\<close> for a string \<open>r\<close> that is one comparator. Such a string holds no
  \<open>||\<close>, hyphen range, caret, tilde, partial version or star for the constructor to
  rewrite; the constructor replaces \<open>>=0.0.0\<close> by the empty comparator and builds the
  range of one set of one comparator. Any other string is outside this model: \<open>None\<close>.
\<close>

definition new_Range :: "string \<Rightarrow> comparator list list option" where
  "new_Range r =
     (let replaced = (if GTE0 r then [] else r)
      in case new_Comparator replaced of
           Inl e \<Rightarrow> None
         | Inr c \<Rightarrow> Some [[c]])"

text \<open>
  \<open>satisfies(v, r)\<close>: \<open>Range.test\<close> on the version string, false on a string that is
  no version; \<open>None\<close> where the range is outside the model.
\<close>

definition satisfies :: "string \<Rightarrow> string \<Rightarrow> bool option" where
  "satisfies v r =
     (case new_Range r of
        None \<Rightarrow> None
      | Some sets \<Rightarrow>
          Some (case new_SemVer v of
                  Inl e \<Rightarrow> False
                | Inr x \<Rightarrow> Range_test sets x))"

section \<open>A worked example\<close>

text \<open>
  One registry entry whose repository has the branches \<open>main\<close> and \<open>1.x\<close>, three tags
  and two published versions; \<open>main\<close> depends on the core package with \<open>^0.5.0\<close> and
  \<open>1.x\<close> with \<open>workspace:*\<close>. In the second upstream the package index lists a
  version key that is not a version.
\<close>

definition example_upstream :: upstream where
  "example_upstream =
     \<lparr>index_json = Some [(''@elizaos-plugins/plugin-a'', ''github:elizaos-plugins/plugin-a'')],
      listBranches = (\<lambda>owner repo. Some [''develop'', ''1.x'', ''main'']),
      listTags = (\<lambda>owner repo. Some [''v1.2.0'', ''0.9.0'', ''nightly'']),
      getContent = (\<lambda>owner repo ref.
        if ref = ''main''
        then Some \<lparr>pkg_version = ''0.9.0'', dependencies_core = Some ''^0.5.0'',
                   peerDependencies_core = None\<rparr>
        else if ref = ''1.x''
        then Some \<lparr>pkg_version = ''1.2.0'', dependencies_core = None,
                   peerDependencies_core = Some ''^1.0.0''\<rparr>
        else None),
      npm_json = (\<lambda>name. Some \<lparr>versions = Some [''0.9.0'', ''1.2.0'']\<rparr>),
      timer_first = False,
      clock_iso = ''2025-06-01T12:00:00.000Z''\<rparr>"

definition malformed_upstream :: upstream where
  "malformed_upstream =
     example_upstream\<lparr>npm_json :=
       (\<lambda>name. Some \<lparr>versions = Some [''0.9.0'', ''not-a-version'', ''1.2.0'']\<rparr>)\<rparr>"

definition example_env :: process_env where
  "example_env = \<lparr>GITHUB_TOKEN = Some ''ghp_token'', GH_TOKEN = None\<rparr>"

definition no_token_env :: process_env where
  "no_token_env = \<lparr>GITHUB_TOKEN = None, GH_TOKEN = Some []\<rparr>"

definition example_verdict :: VersionInfo where
  "example_verdict =
     \<lparr>git = Some \<lparr>git_repo = ''elizaos-plugins/plugin-a'',
                   git_v0 = \<lparr>version = Some ''0.9.0'', branch = Some ''main''\<rparr>,
                   git_v1 = \<lparr>version = Some ''1.2.0'', branch = Some ''1.x''\<rparr>\<rparr>,
      npm = Some \<lparr>npm_repo = Val ''@elizaos/plugin-a'', npm_v0 = Val ''0.9.0'',
                   npm_v1 = Val ''1.2.0''\<rparr>,
      supports = \<lparr>supports_v0 = True, supports_v1 = True\<rparr>\<rparr>"

definition example_snapshot :: CachedRegistry where
  "example_snapshot =
     \<lparr>lastUpdatedAt = ''2025-06-01T12:00:00.000Z'',
      registry = [(''@elizaos-plugins/plugin-a'', example_verdict)]\<rparr>"

definition example_calls :: "call list" where
  "example_calls =
     [ListBranches ''elizaos-plugins'' ''plugin-a'',
      ListTags ''elizaos-plugins'' ''plugin-a'',
      FetchNpm ''@elizaos/plugin-a'',
      GetContent ''elizaos-plugins'' ''plugin-a'' ''main'',
      GetContent ''elizaos-plugins'' ''plugin-a'' ''1.x'']"


text \<open>The cache after a successful cycle at time \<open>0\<close>.\<close>

definition example_cache :: cache where
  "example_cache = \<lparr>cachedData = Some example_snapshot, cacheTimestamp = 0\<rparr>"

text \<open>Every candidate branch declares \<open>^1.0.0\<close>: two candidates resolve to the same major.\<close>

definition overlapping_upstream :: upstream where
  "overlapping_upstream =
     example_upstream\<lparr>getContent :=
       (\<lambda>owner repo ref. Some \<lparr>pkg_version = ''1.2.0'', dependencies_core = Some ''^1.0.0'',
                                 peerDependencies_core = None\<rparr>)\<rparr>"

text \<open>Neither the branch listing nor the package index answers.\<close>

definition silent_upstream :: upstream where
  "silent_upstream =
     example_upstream\<lparr>listBranches := (\<lambda>owner repo. None), npm_json := (\<lambda>name. None)\<rparr>"

text \<open>The tag listing holds the strings that \<open>malformed_upstream\<close> has as version keys.\<close>

definition malformed_tags_upstream :: upstream where
  "malformed_tags_upstream =
     example_upstream\<lparr>listTags :=
       (\<lambda>owner repo. Some [''0.9.0'', ''not-a-version'', ''1.2.0''])\<rparr>"

definition overlapping_verdict :: VersionInfo where
  "overlapping_verdict =
     \<lparr>git = Some \<lparr>git_repo = ''elizaos-plugins/plugin-a'',
                   git_v0 = \<lparr>version = Some ''0.9.0'', branch = None\<rparr>,
                   git_v1 = \<lparr>version = Some ''1.2.0'', branch = Some ''1.x''\<rparr>\<rparr>,
      npm = Some \<lparr>npm_repo = Val ''@elizaos/plugin-a'', npm_v0 = Val ''0.9.0'',
                   npm_v1 = Val ''1.2.0''\<rparr>,
      supports = \<lparr>supports_v0 = True, supports_v1 = True\<rparr>\<rparr>"

definition silent_verdict :: VersionInfo where
  "silent_verdict =
     \<lparr>git = Some \<lparr>git_repo = ''elizaos-plugins/plugin-a'',
                   git_v0 = \<lparr>version = Some ''0.9.0'', branch = None\<rparr>,
                   git_v1 = \<lparr>version = Some ''1.2.0'', branch = None\<rparr>\<rparr>,
      npm = Some \<lparr>npm_repo = Val ''@elizaos/plugin-a'', npm_v0 = Undefined,
                   npm_v1 = Undefined\<rparr>,
      supports = \<lparr>supports_v0 = False, supports_v1 = False\<rparr>\<rparr>"

section \<open>The reconciliation rules as the specification words them\<close>

text \<open>
  A candidate branch yields major \<open>m\<close> when its manifest was fetched and the normalized
  range of the manifest resolves to \<open>m\<close>. The support branch of a major line is the last
  candidate, in priority order, that yields it.
\<close>

definition yields_major ::
  "semver_lib \<Rightarrow> upstream \<Rightarrow> string \<Rightarrow> string \<Rightarrow> nat \<Rightarrow> string \<Rightarrow> bool" where
  "yields_major L U owner repo m b =
     (case snd (fetchPackageJSON U owner repo b) of
        None \<Rightarrow> False
      | Some pkg \<Rightarrow> manifestMajor L pkg = Some m)"

definition last_yielding ::
  "semver_lib \<Rightarrow> upstream \<Rightarrow> string \<Rightarrow> string \<Rightarrow> nat \<Rightarrow> string list \<Rightarrow> string option" where
  "last_yielding L U owner repo m candidates =
     (case filter (yields_major L U owner repo m) candidates of
        [] \<Rightarrow> None
      | b # bs \<Rightarrow> Some (last (b # bs)))"

text \<open>
  The version-set resolution: among version strings \<open>vs\<close>, the slot of major \<open>m\<close> is
  \<open>null\<close> when no entry has that major, and otherwise an entry of that major that is
  at least every entry of that major in the precedence order. \<open>descending\<close> is the
  order of a list after \<open>sort(semver.rcompare)\<close>.
\<close>

definition version_ge :: "semver_lib \<Rightarrow> string \<Rightarrow> string \<Rightarrow> bool" where
  "version_ge L v w =
     (case SemVer L v of
        Inl e \<Rightarrow> False
      | Inr a \<Rightarrow> (case SemVer L w of Inl e \<Rightarrow> False | Inr b \<Rightarrow> 0 \<le> compare a b))"

fun descending :: "semver_lib \<Rightarrow> string list \<Rightarrow> bool" where
  "descending L [] = True"
| "descending L (v # vs) = (list_all (version_ge L v) vs \<and> descending L vs)"

definition latest :: "semver_lib \<Rightarrow> nat \<Rightarrow> string list \<Rightarrow> string option \<Rightarrow> bool" where
  "latest L m vs r =
     (case r of
        None \<Rightarrow> list_all (\<lambda>v. semver_major L v \<noteq> Inr m) vs
      | Some w \<Rightarrow>
          w \<in> set vs \<and> semver_major L w = Inr m \<and>
          list_all (\<lambda>v. if semver_major L v = Inr m then version_ge L w v else True) vs)"

text \<open>The test of the first loop on one settled fetch, for the proofs about the loop.\<close>

fun hit :: "semver_lib \<Rightarrow> nat \<Rightarrow> string \<times> manifest option \<Rightarrow> bool" where
  "hit L m (b, None) = False"
| "hit L m (b, Some pkg) = (manifestMajor L pkg = Some m)"

section \<open>Evaluation of the example\<close>

lemmas lex_defs = is_digit_def is_letter_def is_space_def is_idchar_def
  prereleaseIdentifier_def buildIdentifier_def prerelease_value_def decimal_def
  MAX_SAFE_INTEGER_def MAX_LENGTH_def trim_def

lemma parse_090: "new_SemVer ''0.9.0'' = Inr \<lparr>major = 0, minor = 9, patch = 0, prerelease = []\<rparr>"
  by (simp add: new_SemVer_def match_full_def lex_defs)
lemma parse_120: "new_SemVer ''1.2.0'' = Inr \<lparr>major = 1, minor = 2, patch = 0, prerelease = []\<rparr>"
  by (simp add: new_SemVer_def match_full_def lex_defs)
lemma parse_bad: "new_SemVer ''not-a-version'' = Inl (TypeError ''Invalid Version: not-a-version'')"
  by (simp add: new_SemVer_def match_full_def lex_defs)
lemma parse_nightly: "new_SemVer ''nightly'' = Inl (TypeError ''Invalid Version: nightly'')"
  by (simp add: new_SemVer_def match_full_def lex_defs)
lemma clean_v120: "semver_clean ''v1.2.0'' = Some ''1.2.0''"
  by (simp add: semver_clean_def trim_def is_space_def parse_120 format_def digits.simps digit_char_def)
lemma clean_090: "semver_clean ''0.9.0'' = Some ''0.9.0''"
  by (simp add: semver_clean_def trim_def is_space_def parse_090 format_def digits.simps digit_char_def)
lemma clean_nightly: "semver_clean ''nightly'' = None"
  by (simp add: semver_clean_def trim_def is_space_def parse_nightly)

lemma npm_semver_simps:
  "SemVer npm_semver = new_SemVer" "clean npm_semver = semver_clean"
  "minVersion npm_semver = example_minVersion"
  by (simp_all add: npm_semver_def)

lemmas version_facts = npm_semver_simps parse_090 parse_120 parse_bad parse_nightly
  clean_v120 clean_090 clean_nightly

lemma major_facts:
  "semver_major npm_semver ''0.9.0'' = Inr 0"
  "semver_major npm_semver ''1.2.0'' = Inr 1"
  "semver_major npm_semver ''not-a-version'' = Inl (TypeError ''Invalid Version: not-a-version'')"
  by (simp_all add: semver_major_def version_facts)

lemma rcompare_facts:
  "semver_rcompare npm_semver ''0.9.0'' ''1.2.0'' = Inr 1"
  "semver_rcompare npm_semver ''1.2.0'' ''0.9.0'' = Inr (- 1)"
  "semver_rcompare npm_semver ''not-a-version'' ''1.2.0'' = Inl (TypeError ''Invalid Version: not-a-version'')"
  "semver_rcompare npm_semver ''0.9.0'' ''not-a-version'' = Inl (TypeError ''Invalid Version: not-a-version'')"
  by (simp_all add: semver_rcompare_def version_facts compare_def compareMain_def comparePre_def)

lemma sort_example:
  "sort_rcompare npm_semver [''0.9.0'', ''1.2.0''] = Inr [''1.2.0'', ''0.9.0'']"
  "sort_rcompare npm_semver [''1.2.0'', ''0.9.0''] = Inr [''1.2.0'', ''0.9.0'']"
  by (simp_all add: rcompare_facts)

lemma sort_malformed:
  "sort_rcompare npm_semver [''0.9.0'', ''not-a-version'', ''1.2.0'']
     = Inl (TypeError ''Invalid Version: not-a-version'')"
  by (simp add: rcompare_facts)

lemma find_example:
  "find_major npm_semver 0 [''1.2.0'', ''0.9.0''] = Inr (Some ''0.9.0'')"
  "find_major npm_semver 1 [''1.2.0'', ''0.9.0''] = Inr (Some ''1.2.0'')"
  by (simp_all add: major_facts)

lemma tags_example:
  "getLatestGitTags npm_semver example_upstream owner repo =
     ([ListTags owner repo],
      \<lparr>tag_repo = owner @ ''/'' @ repo, tag_v0 = Some ''0.9.0'', tag_v1 = Some ''1.2.0''\<rparr>)"
  by (simp add: getLatestGitTags_def latest_tags_def example_upstream_def List.map_filter_def
        version_facts rcompare_facts major_facts)

lemma tags_malformed:
  "getLatestGitTags npm_semver malformed_upstream owner repo =
     ([ListTags owner repo],
      \<lparr>tag_repo = owner @ ''/'' @ repo, tag_v0 = Some ''0.9.0'', tag_v1 = Some ''1.2.0''\<rparr>)"
  by (simp add: getLatestGitTags_def latest_tags_def example_upstream_def malformed_upstream_def
        List.map_filter_def version_facts rcompare_facts major_facts)

lemma npm_example:
  "inspectNpm npm_semver example_upstream name =
     ([FetchNpm name], Inr \<lparr>npm_repo = Val name, npm_v0 = Val ''0.9.0'', npm_v1 = Val ''1.2.0''\<rparr>)"
  by (simp add: inspectNpm_def example_upstream_def rcompare_facts major_facts)

lemma npm_malformed:
  "inspectNpm npm_semver malformed_upstream name =
     ([FetchNpm name], Inl (TypeError ''Invalid Version: not-a-version''))"
  by (simp add: inspectNpm_def example_upstream_def malformed_upstream_def rcompare_facts major_facts)

lemma parseGitRef_example:
  "parseGitRef ''github:elizaos-plugins/plugin-a'' = Some (''elizaos-plugins'', ''plugin-a'')"
  by (simp add: parseGitRef_def startsWith_def)

lemma guess_example: "guessNpmName ''@elizaos-plugins/plugin-a'' = ''@elizaos/plugin-a''"
  by (simp add: guessNpmName_def startsWith_def)


lemma branches_example:
  "getGitHubBranches example_upstream owner repo = ([ListBranches owner repo], [''develop'', ''1.x'', ''main''])"
  "getGitHubBranches malformed_upstream owner repo = ([ListBranches owner repo], [''develop'', ''1.x'', ''main''])"
  by (simp_all add: getGitHubBranches_def example_upstream_def malformed_upstream_def)

lemma candidates_example: "branchCandidates [''develop'', ''1.x'', ''main''] = [''main'', ''1.x'']"
  by (simp add: branchCandidates_def candidate_list_def)

lemma manifests_example:
  "fetchPackageJSON example_upstream owner repo ''main'' =
     ([GetContent owner repo ''main''], Some \<lparr>manifest_version = ''0.9.0'', coreRange = Some ''^0.5.0''\<rparr>)"
  "fetchPackageJSON example_upstream owner repo ''1.x'' =
     ([GetContent owner repo ''1.x''], Some \<lparr>manifest_version = ''1.2.0'', coreRange = Some ''^1.0.0''\<rparr>)"
  "fetchPackageJSON malformed_upstream owner repo ''main'' =
     ([GetContent owner repo ''main''], Some \<lparr>manifest_version = ''0.9.0'', coreRange = Some ''^0.5.0''\<rparr>)"
  "fetchPackageJSON malformed_upstream owner repo ''1.x'' =
     ([GetContent owner repo ''1.x''], Some \<lparr>manifest_version = ''1.2.0'', coreRange = Some ''^1.0.0''\<rparr>)"
  by (simp_all add: fetchPackageJSON_def example_upstream_def malformed_upstream_def)

lemma majors_example:
  "manifestMajor npm_semver \<lparr>manifest_version = v, coreRange = Some ''^0.5.0''\<rparr> = Some 0"
  "manifestMajor npm_semver \<lparr>manifest_version = v, coreRange = Some ''^1.0.0''\<rparr> = Some 1"
  by (simp_all add: manifestMajor_def normalizeRange_def rangeMajor_def startsWith_def
        npm_semver_simps example_minVersion_def)

lemma processRepo_example:
  "processRepo npm_semver example_upstream ''@elizaos-plugins/plugin-a'' ''github:elizaos-plugins/plugin-a''
     = (example_calls, Inr (''@elizaos-plugins/plugin-a'', example_verdict))"
  by (simp add: processRepo_def parseGitRef_example guess_example branches_example
        candidates_example tags_example npm_example manifests_example majors_example
        List.map_filter_def verdict_def example_calls_def example_verdict_def)

lemma processRepo_malformed:
  "processRepo npm_semver malformed_upstream ''@elizaos-plugins/plugin-a'' ''github:elizaos-plugins/plugin-a''
     = (example_calls, Inl (TypeError ''Invalid Version: not-a-version''))"
  by (simp add: processRepo_def parseGitRef_example guess_example branches_example
        candidates_example tags_malformed npm_malformed manifests_example majors_example
        List.map_filter_def example_calls_def)

lemma index_example:
  "safeFetchJSON_index example_upstream =
     ([FetchIndex], Some [(''@elizaos-plugins/plugin-a'', ''github:elizaos-plugins/plugin-a'')])"
  "safeFetchJSON_index malformed_upstream =
     ([FetchIndex], Some [(''@elizaos-plugins/plugin-a'', ''github:elizaos-plugins/plugin-a'')])"
  by (simp_all add: safeFetchJSON_index_def example_upstream_def malformed_upstream_def)

lemma clock_example:
  "clock_iso example_upstream = ''2025-06-01T12:00:00.000Z''"
  "clock_iso malformed_upstream = ''2025-06-01T12:00:00.000Z''"
  "timer_first example_upstream = False"
  "timer_first malformed_upstream = False"
  by (simp_all add: example_upstream_def malformed_upstream_def)

lemma parseRegistry_example:
  "parseRegistry npm_semver example_upstream token = (FetchIndex # example_calls, Inr example_snapshot)"
  by (simp add: parseRegistry_def index_example processRepo_example clock_example
        example_snapshot_def)

lemma parseRegistry_malformed:
  "parseRegistry npm_semver malformed_upstream token =
     (FetchIndex # example_calls, Inl (TypeError ''Invalid Version: not-a-version''))"
  by (simp add: parseRegistry_def index_example processRepo_malformed)


lemma clean_bad: "semver_clean ''not-a-version'' = None"
  by (simp add: semver_clean_def trim_def is_space_def parse_bad)

lemma clean_120: "semver_clean ''1.2.0'' = Some ''1.2.0''"
  by (simp add: semver_clean_def trim_def is_space_def parse_120 format_def digits.simps
        digit_char_def)

lemma tags_any:
  "getLatestGitTags npm_semver overlapping_upstream owner repo =
     ([ListTags owner repo],
      \<lparr>tag_repo = owner @ ''/'' @ repo, tag_v0 = Some ''0.9.0'', tag_v1 = Some ''1.2.0''\<rparr>)"
  "getLatestGitTags npm_semver silent_upstream owner repo =
     ([ListTags owner repo],
      \<lparr>tag_repo = owner @ ''/'' @ repo, tag_v0 = Some ''0.9.0'', tag_v1 = Some ''1.2.0''\<rparr>)"
  "getLatestGitTags npm_semver malformed_tags_upstream owner repo =
     ([ListTags owner repo],
      \<lparr>tag_repo = owner @ ''/'' @ repo, tag_v0 = Some ''0.9.0'', tag_v1 = Some ''1.2.0''\<rparr>)"
  by (simp_all add: getLatestGitTags_def latest_tags_def example_upstream_def
        overlapping_upstream_def silent_upstream_def malformed_tags_upstream_def
        List.map_filter_def version_facts clean_bad clean_120 rcompare_facts major_facts)

lemma npm_any:
  "inspectNpm npm_semver overlapping_upstream name =
     ([FetchNpm name], Inr \<lparr>npm_repo = Val name, npm_v0 = Val ''0.9.0'', npm_v1 = Val ''1.2.0''\<rparr>)"
  "inspectNpm npm_semver silent_upstream name =
     ([FetchNpm name], Inr \<lparr>npm_repo = Val name, npm_v0 = Undefined, npm_v1 = Undefined\<rparr>)"
  by (simp_all add: inspectNpm_def example_upstream_def overlapping_upstream_def
        silent_upstream_def rcompare_facts major_facts)

lemma branches_any:
  "getGitHubBranches overlapping_upstream owner repo =
     ([ListBranches owner repo], [''develop'', ''1.x'', ''main''])"
  "getGitHubBranches silent_upstream owner repo = ([ListBranches owner repo], [])"
  by (simp_all add: getGitHubBranches_def example_upstream_def overlapping_upstream_def
        silent_upstream_def)

lemma manifests_overlapping:
  "fetchPackageJSON overlapping_upstream owner repo ref =
     ([GetContent owner repo ref], Some \<lparr>manifest_version = ''1.2.0'', coreRange = Some ''^1.0.0''\<rparr>)"
  by (simp add: fetchPackageJSON_def overlapping_upstream_def)

lemma processRepo_overlapping:
  "processRepo npm_semver overlapping_upstream ''@elizaos-plugins/plugin-a''
       ''github:elizaos-plugins/plugin-a''
     = (example_calls, Inr (''@elizaos-plugins/plugin-a'', overlapping_verdict))"
  by (simp add: processRepo_def parseGitRef_example guess_example branches_any
        candidates_example tags_any npm_any manifests_overlapping majors_example
        List.map_filter_def verdict_def example_calls_def overlapping_verdict_def)

lemma processRepo_silent:
  "processRepo npm_semver silent_upstream ''@elizaos-plugins/plugin-a''
       ''github:elizaos-plugins/plugin-a''
     = ([ListBranches ''elizaos-plugins'' ''plugin-a'', ListTags ''elizaos-plugins'' ''plugin-a'',
         FetchNpm ''@elizaos/plugin-a''],
        Inr (''@elizaos-plugins/plugin-a'', silent_verdict))"
  by (simp add: processRepo_def parseGitRef_example guess_example branches_any
        branchCandidates_def candidate_list_def tags_any npm_any
        List.map_filter_def verdict_def silent_verdict_def)

section \<open>The cache and the request handler\<close>

lemma parseRegistry_calls:
  "\<exists>calls. fst (parseRegistry L U token) = FetchIndex # calls"
  by (simp add: parseRegistry_def Let_def safeFetchJSON_index_def)

lemma GET_hit:
  "cachedData st = Some snap \<Longrightarrow> now - cacheTimestamp st < CACHE_DURATION \<Longrightarrow>
   GET L U env now st =
     (\<lparr>status = 200, cache_control = Some fresh_headers, body = Snapshot snap\<rparr>, [], st)"
  by (simp add: GET_def)

lemma GET_miss:
  "cachedData st = None \<or> \<not> now - cacheTimestamp st < CACHE_DURATION \<Longrightarrow>
   GET L U env now st = refresh L U env now st"
  by (auto simp add: GET_def split: option.splits)


lemma refresh_timeout:
  "githubToken env = Some token \<Longrightarrow> timer_first U \<Longrightarrow> cachedData st = Some snap \<Longrightarrow>
   refresh L U env now st =
     (\<lparr>status = 200, cache_control = Some stale_headers,
       body = StaleSnapshot snap ''Data may be stale due to parsing error''
                ''Registry parsing timeout''\<rparr>,
      fst (parseRegistry L U token), st)"
  by (simp add: refresh_def Let_def)

lemma refresh_throw:
  "githubToken env = Some token \<Longrightarrow> \<not> timer_first U \<Longrightarrow>
   snd (parseRegistry L U token) = Inl e \<Longrightarrow> cachedData st = Some snap \<Longrightarrow>
   refresh L U env now st =
     (\<lparr>status = 200, cache_control = Some stale_headers,
       body = StaleSnapshot snap ''Data may be stale due to parsing error'' (message e)\<rparr>,
      fst (parseRegistry L U token), st)"
  by (simp add: refresh_def Let_def)


lemma refresh_calls:
  "githubToken env = Some token \<Longrightarrow>
   fst (snd (refresh L U env now st)) = fst (parseRegistry L U token)"
  by (simp add: refresh_def Let_def split: sum.splits option.splits)


lemma env_facts:
  "githubToken example_env = Some ''ghp_token''" "githubToken no_token_env = None"
  by (simp_all add: githubToken_def example_env_def no_token_env_def)

lemma cache_facts:
  "cachedData example_cache = Some example_snapshot" "cacheTimestamp example_cache = 0"
  by (simp_all add: example_cache_def)

text \<open>
  C4. When a snapshot is cached and an aggregation cycle runs and fails by throwing (the
  25-second timer wins the race, or \<open>parseRegistry\<close> rejects), the response is the
  previous snapshot with the warning \<open>Data may be stale due to parsing error\<close> and the
  error message, and both module variables are what they were.
\<close>

theorem stale_fallback_on_failed_cycle:
  assumes "cachedData st = Some snap"
    and "\<not> now - cacheTimestamp st < CACHE_DURATION"
    and "githubToken env = Some token"
    and "timer_first U \<or> snd (parseRegistry L U token) = Inl e"
  shows "GET L U env now st =
           (\<lparr>status = 200, cache_control = Some stale_headers,
             body = StaleSnapshot snap ''Data may be stale due to parsing error''
                      (if timer_first U then ''Registry parsing timeout'' else message e)\<rparr>,
            fst (parseRegistry L U token), st)"
proof (cases "timer_first U")
  case True
  with assms show ?thesis by (simp add: GET_miss refresh_timeout)
next
  case False
  with assms show ?thesis by (simp add: GET_miss refresh_throw)
qed

theorem stale_fallback_on_failed_cycle_witness:
  "GET npm_semver malformed_upstream example_env 1800000 example_cache =
     (\<lparr>status = 200, cache_control = Some stale_headers,
       body = StaleSnapshot example_snapshot ''Data may be stale due to parsing error''
                ''Invalid Version: not-a-version''\<rparr>,
      FetchIndex # example_calls, example_cache)"
  using stale_fallback_on_failed_cycle [of example_cache example_snapshot 1800000 example_env
      "''ghp_token''" malformed_upstream npm_semver "TypeError ''Invalid Version: not-a-version''"]
  by (simp add: cache_facts env_facts CACHE_DURATION_def parseRegistry_malformed clock_example)

lemma reachable_token:
  "reachable L env st \<Longrightarrow> cachedData st \<noteq> None \<Longrightarrow> githubToken env \<noteq> None"
proof (induction rule: reachable.induct)
  case start
  then show ?case by (simp add: initial_cache_def)
next
  case (request st U now)
  show ?case
  proof (cases "githubToken env")
    case None
    then have "snd (snd (GET L U env now st)) = st"
      by (simp add: GET_def refresh_def split: option.splits)
    with request show ?thesis by simp
  next
    case (Some token)
    then show ?thesis by simp
  qed
qed

lemma reachable_example: "reachable npm_semver example_env example_cache"
proof -
  have "snd (snd (GET npm_semver example_upstream example_env 0 initial_cache)) = example_cache"
    by (simp add: GET_def refresh_def initial_cache_def env_facts parseRegistry_example
          clock_example example_cache_def)
  then show ?thesis
    using reachable.request [OF reachable.start, of npm_semver example_env example_upstream 0]
    by simp
qed

text \<open>
  C5. With a snapshot cached, a read less than 30 minutes after \<open>cacheTimestamp\<close>
  returns the cached snapshot as it is and makes no upstream request. A read at 30
  minutes or later, in any state that requests can leave behind in a process, runs a new
  aggregation: a token is configured, and the requests of the read are those of
  \<open>parseRegistry\<close> under it, the fetch of the index document first.
\<close>

theorem cache_window:
  assumes "cachedData st = Some snap"
  shows "CACHE_DURATION = 30 * 60 * 1000 \<and>
         (now - cacheTimestamp st < CACHE_DURATION \<longrightarrow>
            GET L U env now st =
              (\<lparr>status = 200, cache_control = Some fresh_headers, body = Snapshot snap\<rparr>, [], st)) \<and>
         (reachable L env st \<and> CACHE_DURATION \<le> now - cacheTimestamp st \<longrightarrow>
            (\<exists>token calls. githubToken env = Some token \<and>
               fst (snd (GET L U env now st)) = fst (parseRegistry L U token) \<and>
               fst (parseRegistry L U token) = FetchIndex # calls))"
proof -
  have hit: "now - cacheTimestamp st < CACHE_DURATION \<Longrightarrow>
      GET L U env now st =
        (\<lparr>status = 200, cache_control = Some fresh_headers, body = Snapshot snap\<rparr>, [], st)"
    using assms by (rule GET_hit)
  have stale: "\<exists>token calls. githubToken env = Some token \<and>
         fst (snd (GET L U env now st)) = fst (parseRegistry L U token) \<and>
         fst (parseRegistry L U token) = FetchIndex # calls"
    if reach: "reachable L env st" and old: "CACHE_DURATION \<le> now - cacheTimestamp st"
  proof -
    obtain token where token: "githubToken env = Some token"
      using reachable_token [OF reach] assms by auto
    obtain calls where calls: "fst (parseRegistry L U token) = FetchIndex # calls"
      using parseRegistry_calls by blast
    have "GET L U env now st = refresh L U env now st"
      using old by (intro GET_miss) simp
    then have "fst (snd (GET L U env now st)) = fst (parseRegistry L U token)"
      using token by (simp add: refresh_calls)
    with token calls show ?thesis by blast
  qed
  from hit stale show ?thesis by (simp add: CACHE_DURATION_def)
qed

theorem cache_window_witness:
  "cachedData example_cache = Some example_snapshot \<and>
   reachable npm_semver example_env example_cache \<and>
   GET npm_semver example_upstream example_env 1799999 example_cache =
     (\<lparr>status = 200, cache_control = Some fresh_headers, body = Snapshot example_snapshot\<rparr>,
      [], example_cache) \<and>
   githubToken example_env = Some ''ghp_token'' \<and>
   fst (snd (GET npm_semver example_upstream example_env 1800000 example_cache)) =
     FetchIndex # example_calls"
  using cache_window [of example_cache example_snapshot 1799999 npm_semver example_upstream
      example_env]
    cache_window [of example_cache example_snapshot 1800000 npm_semver example_upstream
      example_env]
  by (simp add: reachable_example cache_facts env_facts parseRegistry_example)








section \<open>Reference parsing\<close>

lemma js_split_nonempty: "js_split c xs \<noteq> []"
  by (induction xs) (auto split: list.splits)

lemma js_split_no_separator: "c \<notin> set p \<Longrightarrow> js_split c p = [p]"
  by (induction p) auto

lemma js_split_append: "c \<notin> set a \<Longrightarrow> js_split c (a @ c # rest) = a # js_split c rest"
  by (induction a) (auto split: list.splits)

lemma js_split_segment:
  "c \<notin> set a \<Longrightarrow> rest = [] \<or> (\<exists>t. rest = c # t) \<Longrightarrow>
   \<exists>ys. js_split c (a @ rest) = a # ys"
  by (auto simp add: js_split_no_separator js_split_append)

lemma startsWith_append: "startsWith (p @ s) p"
  by (simp add: startsWith_def)

lemma parseGitRef_shape:
  assumes "CHR ''/'' \<notin> set owner" and "CHR ''/'' \<notin> set repo"
    and "rest = [] \<or> (\<exists>t. rest = CHR ''/'' # t)"
  shows "parseGitRef (''github:'' @ owner @ ''/'' @ repo @ rest) =
           (if owner = [] \<or> repo = [] then None else Some (owner, repo))"
proof -
  obtain ys where ys: "js_split (CHR ''/'') (repo @ rest) = repo # ys"
    using js_split_segment [OF assms(2,3)] by blast
  have "js_split (CHR ''/'') (owner @ CHR ''/'' # repo @ rest) = owner # repo # ys"
    using assms(1) ys by (simp add: js_split_append)
  moreover have "startsWith (''github:'' @ owner @ ''/'' @ repo @ rest) ''github:''"
    by (rule startsWith_append)
  ultimately show ?thesis
    by (simp add: parseGitRef_def)
qed

lemma parseGitRef_no_slash:
  assumes "CHR ''/'' \<notin> set p"
  shows "parseGitRef (''github:'' @ p) = None"
  using assms startsWith_append [of "''github:''" p]
  by (simp add: parseGitRef_def js_split_no_separator)

lemma parseGitRef_no_prefix: "\<not> startsWith gitRef ''github:'' \<Longrightarrow> parseGitRef gitRef = None"
  by (simp add: parseGitRef_def)

text \<open>
  C8. A reference that lacks the \<open>github:\<close> prefix, or has no \<open>/\<close> after it, or whose
  owner segment (before the first \<open>/\<close>) or repo segment (between the first \<open>/\<close> and the
  next one or the end) is empty, gives the verdict with both support flags false, an npm
  block of three \<open>null\<close> fields and no git block, and no request is made.
\<close>

theorem malformed_reference_short_circuits:
  assumes "\<not> startsWith gitRef ''github:'' \<or>
           (\<exists>p. gitRef = ''github:'' @ p \<and> CHR ''/'' \<notin> set p) \<or>
           (\<exists>owner repo rest. gitRef = ''github:'' @ owner @ ''/'' @ repo @ rest \<and>
              CHR ''/'' \<notin> set owner \<and> CHR ''/'' \<notin> set repo \<and>
              (rest = [] \<or> (\<exists>t. rest = CHR ''/'' # t)) \<and>
              (owner = [] \<or> repo = []))"
  shows "processRepo L U npmId gitRef =
           ([], Inr (npmId,
                 \<lparr>git = None,
                  npm = Some \<lparr>npm_repo = Null, npm_v0 = Null, npm_v1 = Null\<rparr>,
                  supports = \<lparr>supports_v0 = False, supports_v1 = False\<rparr>\<rparr>))"
proof -
  have "parseGitRef gitRef = None"
    using assms
  proof (elim disjE exE conjE)
    assume "\<not> startsWith gitRef ''github:''"
    then show ?thesis by (rule parseGitRef_no_prefix)
  next
    fix p assume eq: "gitRef = ''github:'' @ p" and no_sep: "CHR ''/'' \<notin> set p"
    show ?thesis unfolding eq by (rule parseGitRef_no_slash [OF no_sep])
  next
    fix owner repo rest t
    assume "gitRef = ''github:'' @ owner @ ''/'' @ repo @ rest"
      "CHR ''/'' \<notin> set owner" "CHR ''/'' \<notin> set repo" "rest = []" "owner = []"
    then show ?thesis using parseGitRef_shape [of owner repo rest] by simp
  next
    fix owner repo rest t
    assume "gitRef = ''github:'' @ owner @ ''/'' @ repo @ rest"
      "CHR ''/'' \<notin> set owner" "CHR ''/'' \<notin> set repo" "rest = []" "repo = []"
    then show ?thesis using parseGitRef_shape [of owner repo rest] by simp
  next
    fix owner repo rest t
    assume "gitRef = ''github:'' @ owner @ ''/'' @ repo @ rest"
      "CHR ''/'' \<notin> set owner" "CHR ''/'' \<notin> set repo" "rest = CHR ''/'' # t" "owner = []"
    then show ?thesis using parseGitRef_shape [of owner repo rest] by simp
  next
    fix owner repo rest t
    assume "gitRef = ''github:'' @ owner @ ''/'' @ repo @ rest"
      "CHR ''/'' \<notin> set owner" "CHR ''/'' \<notin> set repo" "rest = CHR ''/'' # t" "repo = []"
    then show ?thesis using parseGitRef_shape [of owner repo rest] by simp
  qed
  then show ?thesis
    by (simp add: processRepo_def unsupported_def)
qed

theorem malformed_reference_short_circuits_witness:
  "processRepo npm_semver example_upstream ''@elizaos-plugins/plugin-a'' ''gitlab:owner/repo'' =
     ([], Inr (''@elizaos-plugins/plugin-a'', unsupported)) \<and>
   processRepo npm_semver example_upstream ''@elizaos-plugins/plugin-a'' ''github:owner'' =
     ([], Inr (''@elizaos-plugins/plugin-a'', unsupported)) \<and>
   processRepo npm_semver example_upstream ''@elizaos-plugins/plugin-a'' ''github:/repo'' =
     ([], Inr (''@elizaos-plugins/plugin-a'', unsupported)) \<and>
   processRepo npm_semver example_upstream ''@elizaos-plugins/plugin-a'' ''github:owner//x'' =
     ([], Inr (''@elizaos-plugins/plugin-a'', unsupported))"
proof -
  let ?bad = "\<lambda>gitRef. \<not> startsWith gitRef ''github:'' \<or>
           (\<exists>p. gitRef = ''github:'' @ p \<and> CHR ''/'' \<notin> set p) \<or>
           (\<exists>owner repo rest. gitRef = ''github:'' @ owner @ ''/'' @ repo @ rest \<and>
              CHR ''/'' \<notin> set owner \<and> CHR ''/'' \<notin> set repo \<and>
              (rest = [] \<or> (\<exists>t. rest = CHR ''/'' # t)) \<and>
              (owner = [] \<or> repo = []))"
  have h1: "?bad ''gitlab:owner/repo''"
    by (simp add: startsWith_def)
  have "\<exists>p. ''github:owner'' = ''github:'' @ p \<and> CHR ''/'' \<notin> set p"
    by (rule exI [of _ "''owner''"]) simp
  then have h2: "?bad ''github:owner''" by blast
  have "\<exists>owner repo rest. ''github:/repo'' = ''github:'' @ owner @ ''/'' @ repo @ rest \<and>
              CHR ''/'' \<notin> set owner \<and> CHR ''/'' \<notin> set repo \<and>
              (rest = [] \<or> (\<exists>t. rest = CHR ''/'' # t)) \<and>
              (owner = [] \<or> repo = [])"
    by (rule exI [of _ "[]"], rule exI [of _ "''repo''"], rule exI [of _ "[]"]) simp
  then have h3: "?bad ''github:/repo''" by blast
  have "\<exists>owner repo rest. ''github:owner//x'' = ''github:'' @ owner @ ''/'' @ repo @ rest \<and>
              CHR ''/'' \<notin> set owner \<and> CHR ''/'' \<notin> set repo \<and>
              (rest = [] \<or> (\<exists>t. rest = CHR ''/'' # t)) \<and>
              (owner = [] \<or> repo = [])"
    by (rule exI [of _ "''owner''"], rule exI [of _ "[]"], rule exI [of _ "''/x''"]) simp
  then have h4: "?bad ''github:owner//x''" by blast
  show ?thesis
    using malformed_reference_short_circuits [OF h1, of npm_semver example_upstream
        "''@elizaos-plugins/plugin-a''"]
      malformed_reference_short_circuits [OF h2, of npm_semver example_upstream
        "''@elizaos-plugins/plugin-a''"]
      malformed_reference_short_circuits [OF h3, of npm_semver example_upstream
        "''@elizaos-plugins/plugin-a''"]
      malformed_reference_short_circuits [OF h4, of npm_semver example_upstream
        "''@elizaos-plugins/plugin-a''"]
    by (simp add: unsupported_def)
qed

section \<open>The two loops of the reconciler\<close>

lemma zip_map_self: "zip xs (map f xs) = map (\<lambda>x. (x, f x)) xs"
  by (induction xs) auto

lemma supportedBranches_v0:
  "branch_v0 (supportedBranches L zs sb) =
     (case filter (hit L 0) zs of [] \<Rightarrow> branch_v0 sb | z # zs' \<Rightarrow> Some (fst (last (z # zs'))))"
  by (induction L zs sb rule: supportedBranches.induct)
     (auto simp add: Let_def split: list.splits)

lemma supportedBranches_v1:
  "branch_v1 (supportedBranches L zs sb) =
     (case filter (hit L 1) zs of [] \<Rightarrow> branch_v1 sb | z # zs' \<Rightarrow> Some (fst (last (z # zs'))))"
  by (induction L zs sb rule: supportedBranches.induct)
     (auto simp add: Let_def split: list.splits)

lemma supportsFromPkgs_eq:
  "supportsFromPkgs L pkgs s =
     (fst s \<or> (\<exists>p\<in>set pkgs. manifestMajor L p = Some 0),
      snd s \<or> (\<exists>p\<in>set pkgs. manifestMajor L p = Some 1))"
  by (induction L pkgs s rule: supportsFromPkgs.induct) (auto simp add: Let_def)

lemma filter_hit_fetched:
  "filter (hit L m) (map (\<lambda>b. (b, snd (fetchPackageJSON U owner repo b))) bs) =
     map (\<lambda>b. (b, snd (fetchPackageJSON U owner repo b))) (filter (yields_major L U owner repo m) bs)"
proof -
  have "hit L m (b, snd (fetchPackageJSON U owner repo b)) = yields_major L U owner repo m b" for b
    by (cases "snd (fetchPackageJSON U owner repo b)") (simp_all add: yields_major_def)
  then show ?thesis
    by (simp add: filter_map comp_def)
qed

lemma detected_branch:
  "branch_v0 (supportedBranches L (zip bs (map (\<lambda>b. snd (fetchPackageJSON U owner repo b)) bs))
       \<lparr>branch_v0 = None, branch_v1 = None\<rparr>) = last_yielding L U owner repo 0 bs"
  "branch_v1 (supportedBranches L (zip bs (map (\<lambda>b. snd (fetchPackageJSON U owner repo b)) bs))
       \<lparr>branch_v0 = None, branch_v1 = None\<rparr>) = last_yielding L U owner repo 1 bs"
  by (simp_all add: supportedBranches_v0 supportedBranches_v1 zip_map_self
        filter_hit_fetched last_yielding_def last_map split: list.splits)

lemma last_yielding_None:
  "last_yielding L U owner repo m bs = None \<longleftrightarrow>
     \<not> (\<exists>b\<in>set bs. yields_major L U owner repo m b)"
proof (cases "filter (yields_major L U owner repo m) bs")
  case Nil
  then show ?thesis
    by (simp add: last_yielding_def filter_empty_conv)
next
  case (Cons y ys)
  then have "y \<in> set (filter (yields_major L U owner repo m) bs)" by simp
  then have "\<exists>b\<in>set bs. yields_major L U owner repo m b" by auto
  then show ?thesis
    using Cons by (simp add: last_yielding_def)
qed

lemma last_yielding_Some:
  assumes "last_yielding L U owner repo m bs = Some b"
  shows "b \<in> set bs \<and> yields_major L U owner repo m b"
proof -
  from assms obtain y ys where ys: "filter (yields_major L U owner repo m) bs = y # ys"
    and b: "b = last (y # ys)"
    by (auto simp add: last_yielding_def split: list.splits)
  have "last (y # ys) \<in> set (y # ys)" by (rule last_in_set) simp
  then have "b \<in> set (filter (yields_major L U owner repo m) bs)"
    using ys b by simp
  then show ?thesis by simp
qed

lemma candidate_nonempty: "b \<in> set (branchCandidates branches) \<Longrightarrow> b \<noteq> []"
  by (auto simp add: branchCandidates_def candidate_list_def split: if_splits)

lemma is_truthy_last_yielding:
  "is_truthy (last_yielding L U owner repo m (branchCandidates branches)) \<longleftrightarrow>
     (\<exists>b\<in>set (branchCandidates branches). yields_major L U owner repo m b)"
proof (cases "last_yielding L U owner repo m (branchCandidates branches)")
  case None
  then have "\<not> (\<exists>b\<in>set (branchCandidates branches). yields_major L U owner repo m b)"
    using last_yielding_None [of L U owner repo m "branchCandidates branches"] by simp
  then show ?thesis using None by simp
next
  case (Some b)
  then show ?thesis
    using last_yielding_Some [OF Some] candidate_nonempty [of b branches] by auto
qed

lemma pkgs_yield:
  "(\<exists>p\<in>set (List.map_filter id (map (\<lambda>b. snd (fetchPackageJSON U owner repo b)) bs)).
        manifestMajor L p = Some m) \<longleftrightarrow>
   (\<exists>b\<in>set bs. yields_major L U owner repo m b)"
  by (auto simp add: List.map_filter_def yields_major_def split: option.splits)

lemma processRepo_calls:
  assumes "parseGitRef gitRef = Some (owner, repo)"
  shows "fst (processRepo L U npmId gitRef) =
           [ListBranches owner repo, ListTags owner repo, FetchNpm (guessNpmName npmId)] @
           map (GetContent owner repo) (branchCandidates (snd (getGitHubBranches U owner repo)))"
  using assms
  by (simp add: processRepo_def Let_def getGitHubBranches_def getLatestGitTags_def
        inspectNpm_def fetchPackageJSON_def comp_def)

lemma processRepo_verdict:
  assumes "parseGitRef gitRef = Some (owner, repo)"
    and "snd (processRepo L U npmId gitRef) = Inr (i, info)"
  shows "\<exists>n. snd (inspectNpm L U (guessNpmName npmId)) = Inr n \<and> i = npmId \<and>
           info = verdict owner repo
             (supportedBranches L
                (zip (branchCandidates (snd (getGitHubBranches U owner repo)))
                   (map (\<lambda>b. snd (fetchPackageJSON U owner repo b))
                      (branchCandidates (snd (getGitHubBranches U owner repo)))))
                \<lparr>branch_v0 = None, branch_v1 = None\<rparr>)
             (supportsFromPkgs L
                (List.map_filter id (map (\<lambda>b. snd (fetchPackageJSON U owner repo b))
                      (branchCandidates (snd (getGitHubBranches U owner repo)))))
                (False, False))
             (snd (getLatestGitTags L U owner repo)) n"
  using assms by (auto simp add: processRepo_def Let_def comp_def split: sum.splits)

text \<open>
  C9. The manifests are fetched for exactly the branches of
  \<open>["main", "master", "0.x", "1.x"]\<close> that the branch lister returned, in that order; and
  in a returned verdict the support branch of each major line is the last of these
  candidates whose fetched manifest resolves to that major, \<open>null\<close> when there is none.
\<close>

theorem candidate_branches_last_match:
  assumes "parseGitRef gitRef = Some (owner, repo)"
  shows "fst (processRepo L U npmId gitRef) =
           [ListBranches owner repo, ListTags owner repo, FetchNpm (guessNpmName npmId)] @
           map (GetContent owner repo)
             (filter (\<lambda>b. b \<in> set (snd (getGitHubBranches U owner repo)))
                [''main'', ''master'', ''0.x'', ''1.x'']) \<and>
         (\<forall>i info. snd (processRepo L U npmId gitRef) = Inr (i, info) \<longrightarrow>
            (\<exists>g. git info = Some g \<and>
               branch (git_v0 g) =
                 last_yielding L U owner repo 0
                   (filter (\<lambda>b. b \<in> set (snd (getGitHubBranches U owner repo)))
                      [''main'', ''master'', ''0.x'', ''1.x'']) \<and>
               branch (git_v1 g) =
                 last_yielding L U owner repo 1
                   (filter (\<lambda>b. b \<in> set (snd (getGitHubBranches U owner repo)))
                      [''main'', ''master'', ''0.x'', ''1.x''])))"
proof -
  have cands: "filter (\<lambda>b. b \<in> set (snd (getGitHubBranches U owner repo)))
                [''main'', ''master'', ''0.x'', ''1.x''] =
               branchCandidates (snd (getGitHubBranches U owner repo))"
    by (simp only: branchCandidates_def candidate_list_def)
  show ?thesis
    unfolding cands
  proof (intro conjI allI impI)
    show "fst (processRepo L U npmId gitRef) =
           [ListBranches owner repo, ListTags owner repo, FetchNpm (guessNpmName npmId)] @
           map (GetContent owner repo) (branchCandidates (snd (getGitHubBranches U owner repo)))"
      using assms by (rule processRepo_calls)
  next
    fix i info
    assume "snd (processRepo L U npmId gitRef) = Inr (i, info)"
    from processRepo_verdict [OF assms this]
    show "\<exists>g. git info = Some g \<and>
            branch (git_v0 g) = last_yielding L U owner repo 0
              (branchCandidates (snd (getGitHubBranches U owner repo))) \<and>
            branch (git_v1 g) = last_yielding L U owner repo 1
              (branchCandidates (snd (getGitHubBranches U owner repo)))"
      by (auto simp add: verdict_def Let_def detected_branch)
  qed
qed

theorem candidate_branches_last_match_witness:
  "fst (processRepo npm_semver overlapping_upstream ''@elizaos-plugins/plugin-a''
          ''github:elizaos-plugins/plugin-a'') =
     [ListBranches ''elizaos-plugins'' ''plugin-a'', ListTags ''elizaos-plugins'' ''plugin-a'',
      FetchNpm ''@elizaos/plugin-a'', GetContent ''elizaos-plugins'' ''plugin-a'' ''main'',
      GetContent ''elizaos-plugins'' ''plugin-a'' ''1.x''] \<and>
   last_yielding npm_semver overlapping_upstream ''elizaos-plugins'' ''plugin-a'' 0
     [''main'', ''1.x''] = None \<and>
   last_yielding npm_semver overlapping_upstream ''elizaos-plugins'' ''plugin-a'' 1
     [''main'', ''1.x''] = Some ''1.x''"
  using candidate_branches_last_match [OF parseGitRef_example, of npm_semver
      overlapping_upstream "''@elizaos-plugins/plugin-a''"]
  by (simp add: processRepo_overlapping branches_any guess_example overlapping_verdict_def)

text \<open>
  C1. In a verdict returned for a reference that parses, \<open>supports.v0\<close> holds exactly when
  some candidate branch yields major 0 or the package-index probe returned a truthy
  \<open>v0\<close>; likewise \<open>supports.v1\<close> with major 1 and \<open>v1\<close>.
\<close>

theorem supports_iff_signal:
  assumes "parseGitRef gitRef = Some (owner, repo)"
    and "snd (processRepo L U npmId gitRef) = Inr (i, info)"
  shows "(supports_v0 (supports info) \<longleftrightarrow>
            (\<exists>b\<in>set (branchCandidates (snd (getGitHubBranches U owner repo))).
                yields_major L U owner repo 0 b) \<or>
            (\<exists>n. snd (inspectNpm L U (guessNpmName npmId)) = Inr n \<and> truthy (npm_v0 n))) \<and>
         (supports_v1 (supports info) \<longleftrightarrow>
            (\<exists>b\<in>set (branchCandidates (snd (getGitHubBranches U owner repo))).
                yields_major L U owner repo 1 b) \<or>
            (\<exists>n. snd (inspectNpm L U (guessNpmName npmId)) = Inr n \<and> truthy (npm_v1 n)))"
proof -
  from processRepo_verdict [OF assms]
  obtain n where n: "snd (inspectNpm L U (guessNpmName npmId)) = Inr n"
    and info: "info = verdict owner repo
             (supportedBranches L
                (zip (branchCandidates (snd (getGitHubBranches U owner repo)))
                   (map (\<lambda>b. snd (fetchPackageJSON U owner repo b))
                      (branchCandidates (snd (getGitHubBranches U owner repo)))))
                \<lparr>branch_v0 = None, branch_v1 = None\<rparr>)
             (supportsFromPkgs L
                (List.map_filter id (map (\<lambda>b. snd (fetchPackageJSON U owner repo b))
                      (branchCandidates (snd (getGitHubBranches U owner repo)))))
                (False, False))
             (snd (getLatestGitTags L U owner repo)) n"
    by blast
  show ?thesis
    unfolding info
    by (simp add: verdict_def Let_def n supportsFromPkgs_eq pkgs_yield detected_branch
          is_truthy_last_yielding)
qed

theorem supports_iff_signal_witness:
  "supports_v0 (supports example_verdict) \<and> supports_v1 (supports example_verdict) \<and>
   yields_major npm_semver example_upstream ''elizaos-plugins'' ''plugin-a'' 0 ''main'' \<and>
   yields_major npm_semver example_upstream ''elizaos-plugins'' ''plugin-a'' 1 ''1.x'' \<and>
   snd (processRepo npm_semver silent_upstream ''@elizaos-plugins/plugin-a''
          ''github:elizaos-plugins/plugin-a'') =
     Inr (''@elizaos-plugins/plugin-a'', silent_verdict) \<and>
   supports silent_verdict = \<lparr>supports_v0 = False, supports_v1 = False\<rparr>"
  using supports_iff_signal [OF parseGitRef_example, of npm_semver example_upstream
      "''@elizaos-plugins/plugin-a''" "''@elizaos-plugins/plugin-a''" example_verdict]
    supports_iff_signal [OF parseGitRef_example, of npm_semver silent_upstream
      "''@elizaos-plugins/plugin-a''" "''@elizaos-plugins/plugin-a''" silent_verdict]
  by (simp add: processRepo_example processRepo_silent example_verdict_def silent_verdict_def
        yields_major_def manifests_example majors_example)

section \<open>Range normalization\<close>

lemma parse_zero:
  "new_SemVer ''0.0.0'' = Inr \<lparr>major = 0, minor = 0, patch = 0, prerelease = []\<rparr>"
  "new_SemVer ''0.0.1'' = Inr \<lparr>major = 0, minor = 0, patch = 1, prerelease = []\<rparr>"
  "new_SemVer ''5.0.0'' = Inr \<lparr>major = 5, minor = 0, patch = 0, prerelease = []\<rparr>"
  by (simp_all add: new_SemVer_def match_full_def lex_defs)

lemma match_zero: "match_full ''0.0.0'' = Some (''0'', ''0'', ''0'', [])"
  by (simp add: match_full_def lex_defs)

lemma comparator_gte_zero:
  "new_Comparator ''>=0.0.0'' =
     Inr (Comparator GTE \<lparr>major = 0, minor = 0, patch = 0, prerelease = []\<rparr>)"
  by (simp add: new_Comparator_def parse_operator_def startsWith_def trim_def is_space_def
        match_zero parse_zero)

lemma normalize_workspace:
  "normalizeRange (Some (''workspace:'' @ r)) =
     Some (if r = ''*'' \<or> r = ''^'' \<or> r = ''~'' then ''>=0.0.0'' else r)"
  by (simp add: normalizeRange_def startsWith_def Let_def)

lemma release_at_least_zero:
  "prerelease x = [] \<Longrightarrow>
   compare x \<lparr>major = 0, minor = 0, patch = 0, prerelease = []\<rparr> \<ge> 0"
  by (simp add: compare_def compareMain_def comparePre_def)

lemma range_gte_zero: "new_Range ''>=0.0.0'' = Some [[ANY]]"
  by (simp add: new_Range_def GTE0_def startsWith_def trim_def is_space_def
        new_Comparator_def)

lemma any_release: "Range_test [[ANY]] x = (prerelease x = [])"
  by (simp add: Range_test_def testSet_def)

text \<open>
  The replacement of \<open>>=0.0.0\<close> by the empty comparator changes nothing in the test:
  the comparator \<open>>=0.0.0\<close> itself is satisfied by the same versions.
\<close>

lemma gte_zero_release:
  "Range_test [[Comparator GTE \<lparr>major = 0, minor = 0, patch = 0, prerelease = []\<rparr>]] x =
     (prerelease x = [])"
  using release_at_least_zero [of x] by (auto simp add: Range_test_def testSet_def)

lemma parse_alpha:
  "new_SemVer ''1.0.0-alpha'' =
     Inr \<lparr>major = 1, minor = 0, patch = 0, prerelease = [Alphanumeric ''alpha'']\<rparr>"
  by (simp add: new_SemVer_def match_full_def lex_defs)

text \<open>
  C10 (amended). A range that begins with \<open>workspace:\<close> loses the prefix, and a
  remainder \<open>*\<close>, \<open>^\<close> or \<open>~\<close> becomes \<open>>=0.0.0\<close>, the range that every release
  version satisfies and no version with a prerelease tag does; \<open>workspace:*\<close>
  normalizes to a range that the versions \<open>0.0.1\<close> and \<open>5.0.0\<close> satisfy; and a
  normalized range \<open>latest\<close> gives no major for its candidate.
\<close>

theorem workspace_range_normalization:
  "normalizeRange (Some (''workspace:'' @ r)) =
     Some (if r = ''*'' \<or> r = ''^'' \<or> r = ''~'' then ''>=0.0.0'' else r) \<and>
   (r = ''*'' \<or> r = ''^'' \<or> r = ''~'' \<longrightarrow>
      (\<exists>n sets. normalizeRange (Some (''workspace:'' @ r)) = Some n \<and>
         new_Range n = Some sets \<and>
         (\<forall>x. Range_test sets x = (prerelease x = [])))) \<and>
   (\<exists>n. normalizeRange (Some ''workspace:*'') = Some n \<and>
      satisfies ''0.0.1'' n = Some True \<and>
      satisfies ''5.0.0'' n = Some True) \<and>
   (normalizeRange cr = Some ''latest'' \<longrightarrow> rangeMajor L (normalizeRange cr) = None) \<and>
   (normalizeRange (coreRange pkg) = Some ''latest'' \<longrightarrow> manifestMajor L pkg = None)"
proof (intro conjI impI)
  show "normalizeRange (Some (''workspace:'' @ r)) =
     Some (if r = ''*'' \<or> r = ''^'' \<or> r = ''~'' then ''>=0.0.0'' else r)"
    by (rule normalize_workspace)
next
  assume r: "r = ''*'' \<or> r = ''^'' \<or> r = ''~''"
  then have "normalizeRange (Some (''workspace:'' @ r)) = Some ''>=0.0.0''"
    by (simp only: normalize_workspace if_True)
  moreover have "\<forall>x. Range_test [[ANY]] x = (prerelease x = [])"
    by (simp add: any_release)
  ultimately show "\<exists>n sets. normalizeRange (Some (''workspace:'' @ r)) = Some n \<and>
         new_Range n = Some sets \<and>
         (\<forall>x. Range_test sets x = (prerelease x = []))"
    using range_gte_zero by blast
next
  have "normalizeRange (Some ''workspace:*'') = Some ''>=0.0.0''"
    using normalize_workspace [of "''*''"] by simp
  moreover have "satisfies ''0.0.1'' ''>=0.0.0'' = Some True"
    by (simp add: satisfies_def range_gte_zero parse_zero any_release)
  moreover have "satisfies ''5.0.0'' ''>=0.0.0'' = Some True"
    by (simp add: satisfies_def range_gte_zero parse_zero any_release)
  ultimately show "\<exists>n. normalizeRange (Some ''workspace:*'') = Some n \<and>
      satisfies ''0.0.1'' n = Some True \<and> satisfies ''5.0.0'' n = Some True"
    by blast
next
  assume "normalizeRange cr = Some ''latest''"
  then show "rangeMajor L (normalizeRange cr) = None"
    by (simp add: rangeMajor_def)
next
  assume "normalizeRange (coreRange pkg) = Some ''latest''"
  then show "manifestMajor L pkg = None"
    by (simp add: manifestMajor_def rangeMajor_def)
qed

theorem workspace_range_normalization_witness:
  "normalizeRange (Some ''workspace:^'') = Some ''>=0.0.0'' \<and>
   normalizeRange (Some ''workspace:^1.0.0'') = Some ''^1.0.0'' \<and>
   normalizeRange (Some ''workspace:latest'') = Some ''latest'' \<and>
   satisfies ''0.0.1'' ''>=0.0.0'' = Some True \<and>
   satisfies ''5.0.0'' ''>=0.0.0'' = Some True \<and>
   rangeMajor npm_semver (normalizeRange (Some ''workspace:latest'')) = None \<and>
   manifestMajor npm_semver \<lparr>manifest_version = ''1.2.0'', coreRange = Some ''latest''\<rparr> = None"
  using workspace_range_normalization [of "''^''" "Some ''workspace:latest''" npm_semver
      "\<lparr>manifest_version = ''1.2.0'', coreRange = Some ''latest''\<rparr>"]
    workspace_range_normalization [of "''^1.0.0''" "Some ''workspace:latest''" npm_semver
      "\<lparr>manifest_version = ''1.2.0'', coreRange = Some ''latest''\<rparr>"]
    workspace_range_normalization [of "''latest''" "Some ''workspace:latest''" npm_semver
      "\<lparr>manifest_version = ''1.2.0'', coreRange = Some ''latest''\<rparr>"]
  by (simp add: normalizeRange_def startsWith_def)

text \<open>
  The version \<open>1.0.0-alpha\<close> is above \<open>0.0.0\<close> in the precedence order and does not
  satisfy the range that \<open>workspace:*\<close> normalizes to.
\<close>

theorem prerelease_above_zero_not_satisfied_counterexample:
  "normalizeRange (Some ''workspace:*'') = Some ''>=0.0.0'' \<and>
   new_SemVer ''1.0.0-alpha'' =
     Inr \<lparr>major = 1, minor = 0, patch = 0, prerelease = [Alphanumeric ''alpha'']\<rparr> \<and>
   compare \<lparr>major = 1, minor = 0, patch = 0, prerelease = [Alphanumeric ''alpha'']\<rparr>
     \<lparr>major = 0, minor = 0, patch = 0, prerelease = []\<rparr> = 1 \<and>
   satisfies ''1.0.0-alpha'' ''>=0.0.0'' = Some False"
  by (simp add: normalizeRange_def startsWith_def parse_alpha compare_def compareMain_def
        comparePre_def satisfies_def range_gte_zero any_release)

section \<open>Version keys that are not versions\<close>

lemma insert_rcompare_parses:
  "insert_rcompare L x (y # ys) = Inr zs \<Longrightarrow> \<not> isl (SemVer L x) \<and> \<not> isl (SemVer L y)"
  by (auto simp add: semver_rcompare_def split: sum.splits)

lemma insert_rcompare_set:
  "insert_rcompare L x ys = Inr zs \<Longrightarrow> set zs = insert x (set ys)"
proof (induction ys arbitrary: zs)
  case Nil
  then show ?case by auto
next
  case (Cons y ys)
  show ?case
  proof (cases "semver_rcompare L x y")
    case (Inl e)
    with Cons.prems show ?thesis by simp
  next
    case (Inr c)
    show ?thesis
    proof (cases "c \<le> 0")
      case True
      with Inr Cons.prems show ?thesis by auto
    next
      case False
      with Inr Cons.prems obtain zs' where "insert_rcompare L x ys = Inr zs'" "zs = y # zs'"
        by (cases "insert_rcompare L x ys") auto
      with Cons.IH show ?thesis by auto
    qed
  qed
qed

lemma sort_rcompare_set: "sort_rcompare L xs = Inr ys \<Longrightarrow> set ys = set xs"
proof (induction xs arbitrary: ys)
  case Nil
  then show ?case by simp
next
  case (Cons x xs)
  then obtain ys' where "sort_rcompare L xs = Inr ys'" "insert_rcompare L x ys' = Inr ys"
    by (cases "sort_rcompare L xs") auto
  with Cons.IH insert_rcompare_set show ?case by fastforce
qed

lemma sort_rcompare_parses:
  "sort_rcompare L xs = Inr ys \<Longrightarrow> 2 \<le> length xs \<Longrightarrow> \<forall>x\<in>set xs. \<not> isl (SemVer L x)"
proof (induction xs arbitrary: ys)
  case Nil
  then show ?case by simp
next
  case (Cons x xs)
  from Cons.prems(1) obtain ys' where ys': "sort_rcompare L xs = Inr ys'"
    and ins: "insert_rcompare L x ys' = Inr ys"
    by (cases "sort_rcompare L xs") auto
  from Cons.prems(2) obtain a as where xs: "xs = a # as"
    by (cases xs) auto
  have "set ys' = set xs" using ys' by (rule sort_rcompare_set)
  then obtain y ys'' where y: "ys' = y # ys''" "y \<in> set xs"
    using xs by (cases ys') auto
  have x_ok: "\<not> isl (SemVer L x)" and y_ok: "\<not> isl (SemVer L y)"
    using insert_rcompare_parses [of L x y ys'' ys] ins y(1) by simp_all
  have "\<forall>z\<in>set xs. \<not> isl (SemVer L z)"
  proof (cases as)
    case Nil
    then show ?thesis using xs y y_ok by simp
  next
    case (Cons b bs)
    then have "2 \<le> length xs" using xs by simp
    then show ?thesis using Cons.IH [OF ys'] by simp
  qed
  then show ?case using x_ok by simp
qed

lemma find_major_throws: "isl (SemVer L v) \<Longrightarrow> isl (find_major L m (v # vs))"
  by (auto simp add: semver_major_def split: sum.splits)

lemma single_key: "k \<in> set keys \<Longrightarrow> \<not> 2 \<le> length keys \<Longrightarrow> keys = [k]"
  by (cases keys; cases "tl keys") auto

lemma versions_throw:
  assumes "k \<in> set keys" and "isl (SemVer L k)"
  shows "isl (sort_rcompare L keys) \<or>
         (\<exists>srt. sort_rcompare L keys = Inr srt \<and> isl (find_major L 0 srt))"
proof (cases "sort_rcompare L keys")
  case (Inl e)
  then show ?thesis by simp
next
  case (Inr srt)
  have "\<not> 2 \<le> length keys"
    using sort_rcompare_parses [OF Inr] assms by blast
  then have "keys = [k]"
    using assms(1) by (rule single_key [rotated])
  then have "srt = [k]" using Inr by simp
  then show ?thesis
    using Inr find_major_throws [OF assms(2), of 0 "[]"] by simp
qed

lemma inspectNpm_throws:
  assumes "npm_json U name = Some meta" and "versions meta = Some keys"
    and "k \<in> set keys" and "isl (SemVer L k)"
  shows "isl (snd (inspectNpm L U name))"
  using versions_throw [OF assms(3,4)] assms(1,2)
  by (auto simp add: inspectNpm_def split: sum.splits)

lemma processRepo_throws:
  assumes "parseGitRef gitRef = Some (owner, repo)"
    and "isl (snd (inspectNpm L U (guessNpmName npmId)))"
  shows "isl (snd (processRepo L U npmId gitRef))"
  using assms by (auto simp add: processRepo_def Let_def split: sum.splits)

lemma promise_all_throws: "\<exists>r\<in>set rs. isl r \<Longrightarrow> isl (promise_all rs)"
  by (induction rs rule: promise_all.induct) (auto split: sum.splits)


lemma parseRegistry_throws:
  assumes "index_json U = Some entries" and "(npmId, gitRef) \<in> set entries" and "npmId \<noteq> []"
    and "isl (snd (processRepo L U npmId gitRef))"
  shows "isl (snd (parseRegistry L U token))"
proof -
  let ?reg = "filter (\<lambda>e. fst e \<noteq> []) entries"
  have "(npmId, gitRef) \<in> set ?reg" using assms(2,3) by simp
  then have "snd (processRepo L U npmId gitRef) \<in>
      set (map snd (map (\<lambda>e. processRepo L U (fst e) (snd e)) ?reg))"
    by force
  then have "isl (promise_all (map snd (map (\<lambda>e. processRepo L U (fst e) (snd e)) ?reg)))"
    using assms(4) by (intro promise_all_throws) blast
  then show ?thesis
    using assms(1)
    by (auto simp add: parseRegistry_def safeFetchJSON_index_def Let_def split: sum.splits)
qed

subsection \<open>The precedence order\<close>

lemma string_less_iff: "string_less a b \<longleftrightarrow> a < b"
  by (induction a b rule: string_less.induct) (auto simp add: less_char_def)

lemma compareIdentifiers_eq:
  "compareIdentifiers a b = (if a = b then 0 else if id_less a b then - 1 else 1)"
  by (cases a; cases b) (auto simp add: string_less_iff)

lemma id_less_trans: "id_less a b \<Longrightarrow> id_less b c \<Longrightarrow> id_less a c"
  by (cases a; cases b; cases c) auto

lemma id_less_irrefl: "\<not> id_less a a"
  by (cases a) auto

lemma id_less_total: "a \<noteq> b \<Longrightarrow> id_less a b \<or> id_less b a"
  by (cases a; cases b) auto

lemma id_less_asym: "id_less a b \<Longrightarrow> \<not> id_less b a"
  using id_less_trans id_less_irrefl by blast

lemma compareIdentifiers_flip:
  "a \<noteq> b \<Longrightarrow> compareIdentifiers a b \<le> 0 \<Longrightarrow> 0 \<le> compareIdentifiers b a"
  using id_less_asym [of a b] by (simp add: compareIdentifiers_eq split: if_splits)

lemma comparePreFrom_flip: "comparePreFrom p q \<le> 0 \<Longrightarrow> 0 \<le> comparePreFrom q p"
proof (induction p q rule: comparePreFrom.induct)
  case (4 a as b bs)
  show ?case
  proof (cases "a = b")
    case True
    then show ?thesis using 4 by simp
  next
    case False
    then show ?thesis
      using 4(2) compareIdentifiers_flip [of a b] by auto
  qed
qed simp_all

lemma compareIdentifiers_ge:
  "a \<noteq> b \<Longrightarrow> 0 \<le> compareIdentifiers a b \<longleftrightarrow> id_less b a"
  using id_less_total [of a b] id_less_asym [of a b]
  by (auto simp add: compareIdentifiers_eq)

lemma comparePreFrom_trans:
  "0 \<le> comparePreFrom p q \<Longrightarrow> 0 \<le> comparePreFrom q r \<Longrightarrow> 0 \<le> comparePreFrom p r"
proof (induction p q arbitrary: r rule: comparePreFrom.induct)
  case 1
  then show ?case by simp
next
  case (2 a as)
  then show ?case by (cases r) auto
next
  case (3 b bs)
  then show ?case by simp
next
  case (4 a as b bs)
  show ?case
  proof (cases r)
    case Nil
    then show ?thesis by simp
  next
    case (Cons c cs)
    show ?thesis
    proof (cases "a = b")
      case True
      show ?thesis
      proof (cases "b = c")
        case bc: True
        then show ?thesis using 4 True Cons by simp
      next
        case bc: False
        then show ?thesis using 4(3) True Cons by simp
      qed
    next
      case False
      then have ba: "id_less b a"
        using 4(2) by (simp add: compareIdentifiers_ge)
      show ?thesis
      proof (cases "b = c")
        case True
        then show ?thesis
          using False ba Cons by (simp add: compareIdentifiers_ge)
      next
        case bc: False
        then have "id_less c b"
          using 4(3) Cons by (simp add: compareIdentifiers_ge)
        then have ca: "id_less c a" using ba by (rule id_less_trans)
        then have "a \<noteq> c" using id_less_irrefl by auto
        then show ?thesis
          using Cons ca by (simp add: compareIdentifiers_ge)
      qed
    qed
  qed
qed

lemma comparePre_flip: "comparePre a b \<le> 0 \<Longrightarrow> 0 \<le> comparePre b a"
  using comparePreFrom_flip [of "prerelease a" "prerelease b"]
  by (simp add: comparePre_def split: if_splits)

lemma comparePre_trans: "0 \<le> comparePre a b \<Longrightarrow> 0 \<le> comparePre b c \<Longrightarrow> 0 \<le> comparePre a c"
  using comparePreFrom_trans [of "prerelease a" "prerelease b" "prerelease c"]
  by (simp add: comparePre_def split: if_splits)

lemma compareMain_eq:
  "compareMain a b = (if main_less a b then - 1 else if main_less b a then 1 else 0)"
  by (auto simp add: compareMain_def main_less_def)

lemma main_cases: "main_less a b \<or> main_less b a \<or> main_eq a b"
  by (auto simp add: main_less_def main_eq_def)

lemma main_less_asym: "main_less a b \<Longrightarrow> \<not> main_less b a \<and> \<not> main_eq a b \<and> \<not> main_eq b a"
  by (auto simp add: main_less_def main_eq_def)

lemma main_less_trans: "main_less a b \<Longrightarrow> main_less b c \<Longrightarrow> main_less a c"
  by (auto simp add: main_less_def)

lemma main_eq_less: "main_eq a b \<Longrightarrow> main_less a c = main_less b c \<and> main_less c a = main_less c b"
  by (auto simp add: main_less_def main_eq_def)

lemma main_eq_sym: "main_eq a b \<Longrightarrow> main_eq b a"
  by (auto simp add: main_eq_def)

lemma main_eq_trans: "main_eq a b \<Longrightarrow> main_eq b c \<Longrightarrow> main_eq a c"
  by (auto simp add: main_eq_def)

lemma compare_ge:
  "0 \<le> compare a b \<longleftrightarrow> main_less b a \<or> (main_eq a b \<and> 0 \<le> comparePre a b)"
  using main_cases [of a b] main_less_asym [of a b] main_less_asym [of b a]
  by (auto simp add: compare_def compareMain_eq)

lemma compare_le:
  "compare a b \<le> 0 \<longleftrightarrow> main_less a b \<or> (main_eq a b \<and> comparePre a b \<le> 0)"
  using main_cases [of a b] main_less_asym [of a b] main_less_asym [of b a]
  by (auto simp add: compare_def compareMain_eq)

lemma compare_flip: "compare a b \<le> 0 \<Longrightarrow> 0 \<le> compare b a"
  using comparePre_flip [of a b] main_eq_sym [of a b]
  by (auto simp add: compare_ge compare_le)

lemma compare_trans:
  assumes "0 \<le> compare a b" and "0 \<le> compare b c"
  shows "0 \<le> compare a c"
proof -
  consider "main_less b a" | "main_eq a b" "0 \<le> comparePre a b"
    using assms(1) by (auto simp add: compare_ge)
  then show ?thesis
  proof cases
    case 1
    consider "main_less c b" | "main_eq b c" "0 \<le> comparePre b c"
      using assms(2) by (auto simp add: compare_ge)
    then show ?thesis
    proof cases
      case 1
      then have "main_less c a" using \<open>main_less b a\<close> by (rule main_less_trans)
      then show ?thesis by (simp add: compare_ge)
    next
      case 2
      then have "main_less c a"
        using \<open>main_less b a\<close> main_eq_less [of b c a] by simp
      then show ?thesis by (simp add: compare_ge)
    qed
  next
    case 2
    consider "main_less c b" | "main_eq b c" "0 \<le> comparePre b c"
      using assms(2) by (auto simp add: compare_ge)
    then show ?thesis
    proof cases
      case 1
      then have "main_less c a"
        using 2(1) main_eq_less [of a b c] by simp
      then show ?thesis by (simp add: compare_ge)
    next
      case b: 2
      have "main_eq a c" using 2(1) b(1) by (rule main_eq_trans)
      moreover have "0 \<le> comparePre a c" using 2(2) b(2) by (rule comparePre_trans)
      ultimately show ?thesis by (simp add: compare_ge)
    qed
  qed
qed


subsection \<open>The version-set resolution\<close>

lemma comparePreFrom_refl: "comparePreFrom p p = 0"
  by (induction p) auto

lemma compare_refl: "compare a a = 0"
  by (simp add: compare_def compareMain_def comparePre_def comparePreFrom_refl)

lemma version_ge_refl: "\<not> isl (SemVer L v) \<Longrightarrow> version_ge L v v"
  by (cases "SemVer L v") (auto simp add: version_ge_def compare_refl)

lemma version_ge_trans: "version_ge L u v \<Longrightarrow> version_ge L v w \<Longrightarrow> version_ge L u w"
  by (auto simp add: version_ge_def split: sum.splits intro: compare_trans)

lemma rcompare_le: "semver_rcompare L x y = Inr c \<Longrightarrow> c \<le> 0 \<Longrightarrow> version_ge L x y"
  by (auto simp add: semver_rcompare_def version_ge_def split: sum.splits intro: compare_flip)

lemma rcompare_gt: "semver_rcompare L x y = Inr c \<Longrightarrow> \<not> c \<le> 0 \<Longrightarrow> version_ge L y x"
  by (auto simp add: semver_rcompare_def version_ge_def split: sum.splits)

lemma rcompare_ok:
  "\<not> isl (SemVer L x) \<Longrightarrow> \<not> isl (SemVer L y) \<Longrightarrow> \<exists>c. semver_rcompare L x y = Inr c"
  by (cases "SemVer L x"; cases "SemVer L y") (auto simp add: semver_rcompare_def)

lemma insert_rcompare_ok:
  "\<not> isl (SemVer L x) \<Longrightarrow> \<forall>y\<in>set ys. \<not> isl (SemVer L y) \<Longrightarrow> \<exists>zs. insert_rcompare L x ys = Inr zs"
proof (induction ys)
  case Nil
  then show ?case by simp
next
  case (Cons y ys)
  then obtain c where c: "semver_rcompare L x y = Inr c"
    using rcompare_ok [of L x y] by auto
  from Cons obtain zs where "insert_rcompare L x ys = Inr zs" by auto
  then show ?case using c by simp
qed

lemma sort_rcompare_ok:
  "\<forall>x\<in>set xs. \<not> isl (SemVer L x) \<Longrightarrow> \<exists>ys. sort_rcompare L xs = Inr ys"
proof (induction xs)
  case Nil
  then show ?case by simp
next
  case (Cons x xs)
  then obtain ys where ys: "sort_rcompare L xs = Inr ys" by auto
  then have "set ys = set xs" by (rule sort_rcompare_set)
  then obtain zs where "insert_rcompare L x ys = Inr zs"
    using insert_rcompare_ok [of L x ys] Cons.prems by auto
  then show ?case using ys by simp
qed

lemma insert_rcompare_descending:
  "descending L ys \<Longrightarrow> insert_rcompare L x ys = Inr zs \<Longrightarrow> descending L zs"
proof (induction ys arbitrary: zs)
  case Nil
  then show ?case by auto
next
  case (Cons y ys)
  show ?case
  proof (cases "semver_rcompare L x y")
    case (Inl e)
    with Cons.prems show ?thesis by simp
  next
    case (Inr c)
    show ?thesis
    proof (cases "c \<le> 0")
      case True
      then have zs: "zs = x # y # ys" using Inr Cons.prems by simp
      have xy: "version_ge L x y" using Inr True by (rule rcompare_le)
      have "\<forall>z\<in>set ys. version_ge L x z"
        using Cons.prems(1) xy version_ge_trans by (auto simp add: list_all_iff)
      then show ?thesis
        using zs xy Cons.prems(1) by (simp add: list_all_iff)
    next
      case False
      with Inr Cons.prems obtain zs' where zs': "insert_rcompare L x ys = Inr zs'" "zs = y # zs'"
        by (cases "insert_rcompare L x ys") auto
      have yx: "version_ge L y x" using Inr False by (rule rcompare_gt)
      have "set zs' = insert x (set ys)" using zs'(1) by (rule insert_rcompare_set)
      moreover have "descending L zs'" using Cons.IH [OF _ zs'(1)] Cons.prems(1) by simp
      ultimately show ?thesis
        using zs'(2) yx Cons.prems(1) by (simp add: list_all_iff)
    qed
  qed
qed

lemma sort_rcompare_descending: "sort_rcompare L xs = Inr ys \<Longrightarrow> descending L ys"
proof (induction xs arbitrary: ys)
  case Nil
  then show ?case by simp
next
  case (Cons x xs)
  then obtain ys' where "sort_rcompare L xs = Inr ys'" "insert_rcompare L x ys' = Inr ys"
    by (cases "sort_rcompare L xs") auto
  with Cons.IH insert_rcompare_descending show ?case by blast
qed

lemma find_major_ok:
  "\<forall>v\<in>set vs. \<not> isl (SemVer L v) \<Longrightarrow> \<exists>r. find_major L m vs = Inr r"
  by (induction vs) (auto simp add: semver_major_def split: sum.splits)

lemma find_major_latest:
  "find_major L m vs = Inr r \<Longrightarrow> descending L vs \<Longrightarrow> latest L m vs r"
proof (induction vs)
  case Nil
  then show ?case by (simp add: latest_def)
next
  case (Cons v vs)
  from Cons.prems(1) obtain k where k: "semver_major L v = Inr k"
    by (cases "semver_major L v") auto
  show ?case
  proof (cases "k = m")
    case True
    then have r: "r = Some v" using Cons.prems(1) k by simp
    have "\<not> isl (SemVer L v)" using k by (auto simp add: semver_major_def split: sum.splits)
    then have "version_ge L v v" by (rule version_ge_refl)
    then show ?thesis
      using r k True Cons.prems(2) by (auto simp add: latest_def list_all_iff)
  next
    case False
    then have "find_major L m vs = Inr r" using Cons.prems(1) k by simp
    then have "latest L m vs r" using Cons.prems(2) by (intro Cons.IH) simp_all
    then show ?thesis
      using k False by (auto simp add: latest_def list_all_iff split: option.splits)
  qed
qed

lemma latest_cong: "set vs = set ws \<Longrightarrow> latest L m vs r = latest L m ws r"
  by (cases r) (simp_all add: latest_def list_all_iff)

lemma resolution:
  assumes "\<forall>v\<in>set vs. \<not> isl (SemVer L v)"
  shows "\<exists>srt r0 r1. sort_rcompare L vs = Inr srt \<and>
           find_major L 0 srt = Inr r0 \<and> find_major L 1 srt = Inr r1 \<and>
           latest L 0 vs r0 \<and> latest L 1 vs r1"
proof -
  obtain srt where srt: "sort_rcompare L vs = Inr srt"
    using sort_rcompare_ok [OF assms] by blast
  then have set: "set srt = set vs" by (rule sort_rcompare_set)
  have desc: "descending L srt" using srt by (rule sort_rcompare_descending)
  obtain r0 where r0: "find_major L 0 srt = Inr r0"
    using find_major_ok [of srt L 0] assms set by auto
  obtain r1 where r1: "find_major L 1 srt = Inr r1"
    using find_major_ok [of srt L 1] assms set by auto
  have "latest L 0 vs r0" "latest L 1 vs r1"
    using find_major_latest [OF r0 desc] find_major_latest [OF r1 desc] latest_cong [OF set]
    by simp_all
  then show ?thesis using srt r0 r1 by blast
qed


lemma or_null_latest: "latest L m vs r \<Longrightarrow> [] \<notin> set vs \<Longrightarrow> or_null r = r"
  by (cases r) (auto simp add: latest_def)

lemma getLatestGitTags_latest:
  assumes "listTags U owner repo = Some names"
    and "\<forall>v\<in>set (List.map_filter (clean L) names). \<not> isl (SemVer L v)"
  shows "latest L 0 (filter (\<lambda>v. v \<noteq> []) (List.map_filter (clean L) names))
           (tag_v0 (snd (getLatestGitTags L U owner repo))) \<and>
         latest L 1 (filter (\<lambda>v. v \<noteq> []) (List.map_filter (clean L) names))
           (tag_v1 (snd (getLatestGitTags L U owner repo)))"
proof -
  let ?cleaned = "filter (\<lambda>v. v \<noteq> []) (List.map_filter (clean L) names)"
  have "\<forall>v\<in>set ?cleaned. \<not> isl (SemVer L v)" using assms(2) by simp
  from resolution [OF this]
  obtain srt r0 r1 where srt: "sort_rcompare L ?cleaned = Inr srt"
    and r: "find_major L 0 srt = Inr r0" "find_major L 1 srt = Inr r1"
    and l: "latest L 0 ?cleaned r0" "latest L 1 ?cleaned r1"
    by blast
  have "or_null r0 = r0" "or_null r1 = r1"
    using l or_null_latest [of L _ ?cleaned] by simp_all
  then have "latest_tags L names = Inr (r0, r1)"
    using srt r by (simp add: latest_tags_def)
  then show ?thesis
    using assms(1) l by (simp add: getLatestGitTags_def)
qed

lemma inspectNpm_latest:
  assumes "npm_json U name = Some meta" and "versions meta = Some keys"
    and "\<forall>k\<in>set keys. \<not> isl (SemVer L k)" and "[] \<notin> set keys"
  shows "\<exists>r0 r1. snd (inspectNpm L U name) =
             Inr \<lparr>npm_repo = Val name, npm_v0 = nullable_of r0, npm_v1 = nullable_of r1\<rparr> \<and>
           latest L 0 keys r0 \<and> latest L 1 keys r1"
proof -
  from resolution [OF assms(3)]
  obtain srt r0 r1 where srt: "sort_rcompare L keys = Inr srt"
    and r: "find_major L 0 srt = Inr r0" "find_major L 1 srt = Inr r1"
    and l: "latest L 0 keys r0" "latest L 1 keys r1"
    by blast
  have "or_null r0 = r0" "or_null r1 = r1"
    using l assms(4) or_null_latest [of L _ keys] by simp_all
  then have "snd (inspectNpm L U name) =
      Inr \<lparr>npm_repo = Val name, npm_v0 = nullable_of r0, npm_v1 = nullable_of r1\<rparr>"
    using assms(1,2) srt r by (simp add: inspectNpm_def)
  then show ?thesis using l by blast
qed

text \<open>
  C2 (the code departs from the claim). The package-index prober does not discard a
  version key that is not a version: whenever the listing holds one, \<open>inspectNpm\<close> throws
  instead of returning the two slots. The tag prober does what the claim says
  (\<open>getLatestGitTags_latest\<close>: the entries that \<open>clean\<close> rejects are dropped and each
  slot is \<open>null\<close> or the greatest cleaned entry of its major), and so does the
  package-index prober as long as every key is a version (\<open>inspectNpm_latest\<close>).
\<close>

theorem index_versions_not_discarded:
  assumes "npm_json U name = Some meta" and "versions meta = Some keys"
    and "k \<in> set keys" and "isl (SemVer L k)"
  shows "isl (snd (inspectNpm L U name))"
  using assms by (rule inspectNpm_throws)

theorem index_versions_not_discarded_witness:
  "snd (inspectNpm npm_semver malformed_upstream ''@elizaos/plugin-a'') =
     Inl (TypeError ''Invalid Version: not-a-version'') \<and>
   snd (getLatestGitTags npm_semver malformed_tags_upstream ''elizaos-plugins'' ''plugin-a'') =
     \<lparr>tag_repo = ''elizaos-plugins/plugin-a'', tag_v0 = Some ''0.9.0'', tag_v1 = Some ''1.2.0''\<rparr>"
  using index_versions_not_discarded [of malformed_upstream "''@elizaos/plugin-a''"
      "\<lparr>versions = Some [''0.9.0'', ''not-a-version'', ''1.2.0'']\<rparr>"
      "[''0.9.0'', ''not-a-version'', ''1.2.0'']" "''not-a-version''" npm_semver]
  by (simp add: npm_malformed tags_any)

lemma inspectNpm_throws_iff:
  "isl (snd (inspectNpm L U name)) \<longleftrightarrow>
     (\<exists>meta keys k. npm_json U name = Some meta \<and> versions meta = Some keys \<and>
        k \<in> set keys \<and> isl (SemVer L k))"
proof
  assume thrown: "isl (snd (inspectNpm L U name))"
  then obtain meta where meta: "npm_json U name = Some meta"
    by (cases "npm_json U name") (auto simp add: inspectNpm_def)
  with thrown obtain keys where keys: "versions meta = Some keys"
    by (cases "versions meta") (auto simp add: inspectNpm_def)
  have "\<exists>k\<in>set keys. isl (SemVer L k)"
  proof (rule ccontr)
    assume "\<not> (\<exists>k\<in>set keys. isl (SemVer L k))"
    then have "\<forall>k\<in>set keys. \<not> isl (SemVer L k)" by simp
    from resolution [OF this]
    obtain srt r0 r1 where "sort_rcompare L keys = Inr srt"
      "find_major L 0 srt = Inr r0" "find_major L 1 srt = Inr r1"
      by blast
    then have "\<not> isl (snd (inspectNpm L U name))"
      using meta keys by (simp add: inspectNpm_def)
    then show False using thrown by simp
  qed
  then show "\<exists>meta keys k. npm_json U name = Some meta \<and> versions meta = Some keys \<and>
        k \<in> set keys \<and> isl (SemVer L k)"
    using meta keys by blast
next
  assume "\<exists>meta keys k. npm_json U name = Some meta \<and> versions meta = Some keys \<and>
        k \<in> set keys \<and> isl (SemVer L k)"
  then show "isl (snd (inspectNpm L U name))"
    using inspectNpm_throws by blast
qed

lemma processRepo_throws_iff:
  assumes "parseGitRef gitRef = Some (owner, repo)"
  shows "isl (snd (processRepo L U npmId gitRef)) \<longleftrightarrow>
           isl (snd (inspectNpm L U (guessNpmName npmId)))"
  using assms by (auto simp add: processRepo_def Let_def split: sum.splits)

text \<open>
  C3 (the code departs from the claim). For a reference that parses, the per-package
  reconciler rejects exactly when the package index lists a version key that is not a
  version: the exception of \<open>semver\<close> escapes \<open>inspectNpm\<close>, then \<open>processRepo\<close>, and
  with it the whole aggregation. The other three probes never throw.
\<close>

theorem unparseable_version_key_escapes:
  assumes "parseGitRef gitRef = Some (owner, repo)"
  shows "(isl (snd (processRepo L U npmId gitRef)) \<longleftrightarrow>
            (\<exists>meta keys k. npm_json U (guessNpmName npmId) = Some meta \<and>
               versions meta = Some keys \<and> k \<in> set keys \<and> isl (SemVer L k))) \<and>
         (\<forall>entries. isl (snd (processRepo L U npmId gitRef)) \<and> index_json U = Some entries \<and>
              (npmId, gitRef) \<in> set entries \<and> npmId \<noteq> [] \<longrightarrow>
            isl (snd (parseRegistry L U token)))"
  using processRepo_throws_iff [OF assms] inspectNpm_throws_iff parseRegistry_throws
  by blast

theorem unparseable_version_key_escapes_witness:
  "snd (processRepo npm_semver malformed_upstream ''@elizaos-plugins/plugin-a''
          ''github:elizaos-plugins/plugin-a'') =
     Inl (TypeError ''Invalid Version: not-a-version'') \<and>
   snd (parseRegistry npm_semver malformed_upstream ''ghp_token'') =
     Inl (TypeError ''Invalid Version: not-a-version'') \<and>
   fst (GET npm_semver malformed_upstream example_env 0 \<lparr>cachedData = None, cacheTimestamp = 0\<rparr>) =
     \<lparr>status = 500, cache_control = None,
      body = Failure ''Failed to parse registry'' ''Invalid Version: not-a-version''
               ''2025-06-01T12:00:00.000Z''\<rparr>"
  using unparseable_version_key_escapes [OF parseGitRef_example, where L = npm_semver
      and U = malformed_upstream and npmId = "''@elizaos-plugins/plugin-a''"
      and token = "''ghp_token''"]
  by (simp add: processRepo_malformed parseRegistry_malformed GET_def refresh_def env_facts
        clock_example)

end
